theory Spec2Isabelle
  imports Main "HOL-Library.Char_ord" "HOL-Library.List_Lexorder"
begin

section \<open>JavaScript strings\<close>

text \<open>
  Strings are ASCII character lists. The functions below are the methods of the
  JavaScript \<^verbatim>\<open>String\<close> prototype that \<^verbatim>\<open>tracemap.ts\<close> and \<^verbatim>\<open>utils.ts\<close> call:
  \<^verbatim>\<open>s.startsWith(p)\<close>, \<^verbatim>\<open>s.endsWith(p)\<close>, \<^verbatim>\<open>s.slice(n)\<close> for \<open>0 \<le> n\<close> (which is
  \<^term>\<open>drop n s\<close>), \<^verbatim>\<open>s.split('/')\<close> and \<^verbatim>\<open>s.repeat(n)\<close>.
\<close>

definition startsWith :: "string \<Rightarrow> string \<Rightarrow> bool" where
  "startsWith s p = (take (length p) s = p)"

definition endsWith :: "string \<Rightarrow> string \<Rightarrow> bool" where
  "endsWith s p = (length p \<le> length s \<and> drop (length s - length p) s = p)"

text \<open>\<^verbatim>\<open>s.split(c)\<close> for a one-character separator: \<^verbatim>\<open>"".split("/")\<close> is \<^verbatim>\<open>[""]\<close>,
  \<^verbatim>\<open>"b/".split("/")\<close> is \<^verbatim>\<open>["b", ""]\<close>.\<close>

fun js_split :: "char \<Rightarrow> string \<Rightarrow> string list" where
  "js_split c [] = [[]]"
| "js_split c (x # xs) =
     (if x = c then [] # js_split c xs
      else (case js_split c xs of
              [] \<Rightarrow> [[x]]
            | w # ws \<Rightarrow> (x # w) # ws))"

definition js_repeat :: "string \<Rightarrow> nat \<Rightarrow> string" where
  "js_repeat s n = concat (replicate n s)"

section \<open>JavaScript objects used as ordered dictionaries\<close>

text \<open>
  An object with string keys is an association list in insertion order with distinct
  keys (no key is a canonical array index). \<^verbatim>\<open>o[k]\<close> is \<open>obj_get\<close> (\<open>None\<close> is \<^verbatim>\<open>undefined\<close>),
  \<^verbatim>\<open>o[k] = v\<close> is \<open>obj_set\<close> (an existing key keeps its place, a new key goes last),
  \<^verbatim>\<open>delete o[k]\<close> is \<open>obj_delete\<close> and \<^verbatim>\<open>Object.keys(o)\<close> is \<open>obj_keys\<close>.
  \<open>obj_get\<close> reads own properties, which is all of \<^verbatim>\<open>o[k]\<close> when \<^verbatim>\<open>o\<close> has no prototype or
  \<^verbatim>\<open>k\<close> names no member of \<^verbatim>\<open>Object.prototype\<close>. Where the code looks up a name that its caller
  supplies (\<^verbatim>\<open>upgrade\<close>, \<^verbatim>\<open>uninstall\<close>), the lookup goes on to \<^verbatim>\<open>Object.prototype\<close> when
  the object has it as its prototype; \<open>Object_prototype_names\<close> are the names found
  there, each with a function or object as its value.
\<close>

type_synonym 'v obj = "(string \<times> 'v) list"

definition obj_get :: "'v obj \<Rightarrow> string \<Rightarrow> 'v option" where
  "obj_get ob k = map_of ob k"

fun obj_set :: "string \<Rightarrow> 'v \<Rightarrow> 'v obj \<Rightarrow> 'v obj" where
  "obj_set k v [] = [(k, v)]"
| "obj_set k v ((k', v') # ps) =
     (if k' = k then (k, v) # ps else (k', v') # obj_set k v ps)"

definition obj_delete :: "string \<Rightarrow> 'v obj \<Rightarrow> 'v obj" where
  "obj_delete k ob = filter (\<lambda>kv. fst kv \<noteq> k) ob"

definition obj_keys :: "'v obj \<Rightarrow> string list" where
  "obj_keys ob = map fst ob"

definition Object_prototype_names :: "string list" where
  "Object_prototype_names =
     [''constructor'', ''__defineGetter__'', ''__defineSetter__'', ''hasOwnProperty'',
      ''__lookupGetter__'', ''__lookupSetter__'', ''isPrototypeOf'', ''propertyIsEnumerable'',
      ''toString'', ''valueOf'', ''__proto__'', ''toLocaleString'']"

text \<open>\<^verbatim>\<open>utils.ts\<close>, \<^verbatim>\<open>alphabetize\<close>: a fresh object with the keys in sorted order.\<close>

definition alphabetize :: "'v obj \<Rightarrow> 'v obj" where
  "alphabetize ob = sort_key fst ob"

section \<open>The platform's URL objects\<close>

text \<open>
  A URL object is the record of the WHATWG URL standard restricted to scheme, host
  (\<open>None\<close> for a URL without authority, such as \<^verbatim>\<open>node:fs\<close>), path, query and
  fragment; the getters \<^verbatim>\<open>href\<close> and \<^verbatim>\<open>origin\<close> are computed from them. Credentials,
  ports other than as part of the host text, percent-encoding, backslashes, upper-case
  hosts, white space and Windows drive letters are outside this model: inputs are
  assumed free of them. A query or fragment that is empty (a lone \<^verbatim>\<open>?\<close> or \<^verbatim>\<open>#\<close>) is
  dropped.
\<close>

record url =
  protocol :: string
  host :: "string option"
  pathname :: string
  search :: string
  hash :: string

definition special_schemes :: "string list" where
  "special_schemes = [''http:'', ''https:'', ''ws:'', ''wss:'', ''ftp:'']"

definition href :: "url \<Rightarrow> string" where
  "href u = protocol u @ (case host u of None \<Rightarrow> [] | Some h \<Rightarrow> ''//'' @ h)
              @ pathname u @ search u @ hash u"

definition origin :: "url \<Rightarrow> string" where
  "origin u =
     (if protocol u \<in> set special_schemes
      then protocol u @ ''//'' @ (case host u of None \<Rightarrow> [] | Some h \<Rightarrow> h)
      else ''null'')"

definition is_alpha :: "char \<Rightarrow> bool" where
  "is_alpha ch = (let n = (of_char ch :: nat) in (65 \<le> n \<and> n \<le> 90) \<or> (97 \<le> n \<and> n \<le> 122))"

definition is_scheme_char :: "char \<Rightarrow> bool" where
  "is_scheme_char ch =
     (let n = (of_char ch :: nat)
      in is_alpha ch \<or> (48 \<le> n \<and> n \<le> 57) \<or> ch = CHR ''+'' \<or> ch = CHR ''-'' \<or> ch = CHR ''.'')"

definition to_lower :: "char \<Rightarrow> char" where
  "to_lower ch =
     (let n = (of_char ch :: nat) in if 65 \<le> n \<and> n \<le> 90 then char_of (n + 32) else ch)"

text \<open>The scheme of an input, lower-cased and with its colon, and what follows it.\<close>

definition scheme_of :: "string \<Rightarrow> (string \<times> string) option" where
  "scheme_of s =
     (let nm = takeWhile is_scheme_char s; rest = dropWhile is_scheme_char s
      in (case (nm, rest) of
            (a # _, r # rs) \<Rightarrow>
              if is_alpha a \<and> r = CHR '':'' then Some (map to_lower nm @ '':'', rs) else None
          | _ \<Rightarrow> None))"

definition cut_at :: "char \<Rightarrow> string \<Rightarrow> string \<times> string" where
  "cut_at ch s = (takeWhile (\<lambda>x. x \<noteq> ch) s, dropWhile (\<lambda>x. x \<noteq> ch) s)"

definition path_segments :: "string \<Rightarrow> string list" where
  "path_segments p = js_split CHR ''/'' (if startsWith p ''/'' then drop 1 p else p)"

text \<open>The path state of the URL parser: a single-dot segment is dropped, a double-dot
  segment removes the last segment (none at the root), and either of them at the end
  leaves a trailing empty segment.\<close>

fun parse_path :: "string list \<Rightarrow> string list \<Rightarrow> string list" where
  "parse_path acc [] = acc"
| "parse_path acc [s] =
     (if s = ''..'' then butlast acc @ [[]]
      else if s = ''.'' then acc @ [[]]
      else acc @ [s])"
| "parse_path acc (s # t) =
     (if s = ''..'' then parse_path (butlast acc) t
      else if s = ''.'' then parse_path acc t
      else parse_path (acc @ [s]) t)"

definition serialize_path :: "string list \<Rightarrow> string" where
  "serialize_path segs = concat (map (\<lambda>s. ''/'' @ s) segs)"

definition normalize_path :: "string \<Rightarrow> string" where
  "normalize_path p = serialize_path (parse_path [] (path_segments p))"

text \<open>An input that carries its own scheme. A special scheme needs a host.\<close>

definition URL_absolute :: "string \<Rightarrow> string \<Rightarrow> string \<Rightarrow> string \<Rightarrow> url option" where
  "URL_absolute sch rest qry frag =
     (if sch \<in> set special_schemes then
        (let r = dropWhile (\<lambda>x. x = CHR ''/'') rest;
             h = takeWhile (\<lambda>x. x \<noteq> CHR ''/'') r;
             p = dropWhile (\<lambda>x. x \<noteq> CHR ''/'') r
         in if h = [] then None
            else Some \<lparr>protocol = sch, host = Some h, pathname = normalize_path p,
                        search = qry, hash = frag\<rparr>)
      else if startsWith rest ''//'' then
        (let r = drop 2 rest;
             h = takeWhile (\<lambda>x. x \<noteq> CHR ''/'') r;
             p = dropWhile (\<lambda>x. x \<noteq> CHR ''/'') r
         in Some \<lparr>protocol = sch, host = Some h,
                   pathname = (if p = [] \<and> sch \<noteq> ''file:'' then [] else normalize_path p),
                   search = qry, hash = frag\<rparr>)
      else if sch = ''file:'' then
        Some \<lparr>protocol = sch, host = Some [], pathname = normalize_path rest,
               search = qry, hash = frag\<rparr>
      else
        Some \<lparr>protocol = sch, host = None,
               pathname = (if startsWith rest ''/'' then normalize_path rest else rest),
               search = qry, hash = frag\<rparr>)"

text \<open>An input without scheme, read against a base URL.\<close>

definition URL_relative :: "string \<Rightarrow> string \<Rightarrow> string \<Rightarrow> url \<Rightarrow> url option" where
  "URL_relative r qry frag base =
     (if \<not> startsWith (pathname base) ''/'' then None
      else if startsWith r ''//'' then URL_absolute (protocol base) r qry frag
      else if startsWith r ''/'' then
        Some (base\<lparr>pathname := normalize_path r, search := qry, hash := frag\<rparr>)
      else if r = [] then
        Some (base\<lparr>search := (if qry = [] then search base else qry), hash := frag\<rparr>)
      else
        Some (base\<lparr>pathname :=
                      serialize_path (parse_path (butlast (path_segments (pathname base)))
                                                 (js_split CHR ''/'' r)),
                    search := qry, hash := frag\<rparr>))"

text \<open>\<^verbatim>\<open>new URL(input, base)\<close>; \<open>None\<close> is the \<^verbatim>\<open>TypeError\<close> the constructor throws.
  \<^verbatim>\<open>new URL(input)\<close> is \<open>URL_new input None\<close>.\<close>

definition URL_new :: "string \<Rightarrow> url option \<Rightarrow> url option" where
  "URL_new input base =
     (let (s1, frag) = cut_at CHR ''#'' input;
          (s2, qry) = cut_at CHR ''?'' s1;
          frag' = (if frag = ''#'' then [] else frag);
          qry' = (if qry = ''?'' then [] else qry)
      in (case scheme_of s2 of
            Some (sch, rest) \<Rightarrow>
              (case base of
                 Some b \<Rightarrow>
                   if sch \<in> set special_schemes \<and> protocol b = sch \<and> \<not> startsWith rest ''//''
                   then URL_relative rest qry' frag' b
                   else URL_absolute sch rest qry' frag'
               | None \<Rightarrow> URL_absolute sch rest qry' frag')
          | None \<Rightarrow>
              (case base of
                 None \<Rightarrow> None
               | Some b \<Rightarrow> URL_relative s2 qry' frag' b)))"

text \<open>The setter \<^verbatim>\<open>url.pathname = p\<close>; it does nothing on a URL whose path is opaque.\<close>

definition set_pathname :: "url \<Rightarrow> string \<Rightarrow> url" where
  "set_pathname u p =
     (if host u = None \<and> \<not> startsWith (pathname u) ''/'' then u
      else u\<lparr>pathname := normalize_path p\<rparr>)"

section \<open>\<^verbatim>\<open>utils.ts\<close>\<close>

datatype error =
    MODULE_NOT_FOUND string string
  | TypeError
  | Error string

definition isURL :: "string \<Rightarrow> bool" where
  "isURL specifier =
     (if startsWith specifier ''/'' then True
      else (case URL_new specifier None of None \<Rightarrow> False | Some _ \<Rightarrow> True))"

definition isPlain :: "string \<Rightarrow> bool" where
  "isPlain specifier =
     (if startsWith specifier ''./'' \<or> startsWith specifier ''../'' then False
      else \<not> isURL specifier)"

section \<open>\<^verbatim>\<open>tracemap.ts\<close>: the exclusivity gate\<close>

text \<open>
  \<^verbatim>\<open>Pool(n)\<close>: the counter \<open>c\<close> and the queue \<open>q\<close> of the resolve functions of the
  promises that suspended callers await. A resolve function is named by a number; a
  suspended caller continues only when its resolve function is called.

  \<^verbatim>\<open>async job () { ++this.c > n && await new Promise(r => this.q.push(r)); }\<close>:
  the result is \<open>True\<close> when the caller goes on, \<open>False\<close> when it is suspended on \<open>r\<close>.
\<close>

record pool =
  c :: int
  q :: "nat list"

definition pool_job :: "int \<Rightarrow> nat \<Rightarrow> pool \<Rightarrow> bool \<times> pool" where
  "pool_job n r p =
     (let p1 = p\<lparr>c := c p + 1\<rparr>
      in if c p1 > n then (False, p1\<lparr>q := q p1 @ [r]\<rparr>) else (True, p1))"

text \<open>
  \<^verbatim>\<open>next () { this.c--; this.q.pop() || (() => {}) }\<close>: the counter is decremented and the
  last resolve function is taken off the queue. The statement only evaluates the
  expression \<^verbatim>\<open>this.q.pop() || (() => {})\<close> to a function (\<open>popped\<close>, \<open>None\<close> for the
  empty arrow function); it has no call, so the list of resolve functions that \<open>next\<close>
  calls, the first component of the result, is empty.
\<close>

definition pool_next :: "pool \<Rightarrow> nat list \<times> pool" where
  "pool_next p =
     (let p1 = p\<lparr>c := c p - 1\<rparr>;
          popped = (if q p1 = [] then None else Some (last (q p1)));
          p2 = p1\<lparr>q := butlast (q p1)\<rparr>
      in ([], p2))"

section \<open>\<^verbatim>\<open>tracemap.ts\<close>: the import map and the TraceMap handle\<close>

text \<open>A target is \<open>None\<close> for \<^verbatim>\<open>null\<close>.\<close>

record ImportMap =
  m_imports :: "string option obj"
  m_scopes :: "string option obj obj"
  m_depcache :: "string list obj"

record InstallOptions =
  opt_lock :: "bool option"
  opt_clean :: "bool option"
  opt_force :: "bool option"

record TraceMap =
  tm_baseUrl :: url
  tm_map :: ImportMap
  tm_env :: "string list"
  tm_p :: pool

text \<open>
  An install-family operation is an asynchronous function. Its model has two parts:
  the part that runs when it is called, up to \<^verbatim>\<open>await this._p.job()\<close>, and the
  \<^verbatim>\<open>try\<close>/\<^verbatim>\<open>finally\<close> block that runs once the gate has let it in.
\<close>

datatype op_status = Running | Queued nat | Threw error

definition gate_enter :: "nat \<Rightarrow> TraceMap \<Rightarrow> op_status \<times> TraceMap" where
  "gate_enter r t =
     (let (go, p') = pool_job 1 r (tm_p t)
      in (if go then Running else Queued r, t\<lparr>tm_p := p'\<rparr>))"

text \<open>
  The \<^verbatim>\<open>try\<close> block is the work of the installer collaborator (\<^verbatim>\<open>installer.ts\<close>):
  it leaves the tables as \<open>m'\<close> and either completes (\<open>None\<close>) or throws. The
  \<^verbatim>\<open>finally\<close> block is \<^verbatim>\<open>this._p.next()\<close>. The result is the error the operation
  rejects with, the resolve functions called, and the handle.
\<close>

definition gated_finish ::
  "error option \<Rightarrow> ImportMap \<Rightarrow> TraceMap \<Rightarrow> error option \<times> nat list \<times> TraceMap" where
  "gated_finish e m' t =
     (let (woken, p') = pool_next (tm_p t)
      in (e, woken, t\<lparr>tm_map := m', tm_p := p'\<rparr>))"

datatype modules_arg =
    MString string
  | MArray "string list"
  | MOptions InstallOptions
  | MUndefined

definition no_options :: InstallOptions where
  "no_options = \<lparr>opt_lock = None, opt_clean = None, opt_force = None\<rparr>"

text \<open>\<^verbatim>\<open>traceInstall\<close>, lines 245 to 250: the modules and options it will run with,
  then the gate.\<close>

definition traceInstall ::
  "modules_arg \<Rightarrow> InstallOptions \<Rightarrow> nat \<Rightarrow> TraceMap
     \<Rightarrow> (string list \<times> InstallOptions) \<times> op_status \<times> TraceMap" where
  "traceInstall modules opts r t =
     (let args =
            (case modules of
               MString s \<Rightarrow> ([s], opts)
             | MArray ms \<Rightarrow> (ms, opts)
             | MOptions mo \<Rightarrow>
                 (obj_keys (m_imports (tm_map t)),
                  mo\<lparr>opt_lock := (case opt_lock mo of None \<Rightarrow> Some True | Some b \<Rightarrow> Some b)\<rparr>)
             | MUndefined \<Rightarrow>
                 (obj_keys (m_imports (tm_map t)), no_options\<lparr>opt_lock := Some True\<rparr>))
      in (args, gate_enter r t))"

text \<open>\<^verbatim>\<open>lockInstall\<close>, lines 263 and 264.\<close>

definition lockInstall ::
  "InstallOptions \<Rightarrow> nat \<Rightarrow> TraceMap \<Rightarrow> InstallOptions \<times> op_status \<times> TraceMap" where
  "lockInstall opts r t = (opts\<lparr>opt_lock := Some True\<rparr>, gate_enter r t)"

text \<open>\<^verbatim>\<open>install\<close>, lines 279 and 280; a package is a string, or an object with a name and
  a target.\<close>

datatype package = Package string | NameTarget string string

datatype package_arg = PString string | PArray "package list"

definition install ::
  "package_arg \<Rightarrow> InstallOptions \<Rightarrow> nat \<Rightarrow> TraceMap
     \<Rightarrow> package list \<times> op_status \<times> TraceMap" where
  "install packages opts r t =
     (let pkgs = (case packages of PString s \<Rightarrow> [Package s] | PArray ps \<Rightarrow> ps)
      in (pkgs, gate_enter r t))"

text \<open>
  \<^verbatim>\<open>upgrade\<close> and \<^verbatim>\<open>uninstall\<close>, the loops at lines 328 to 332 and 339 to 343:
  \<^verbatim>\<open>if (!this._map.imports[pkg]) throw ...; delete this._map.imports[pkg];\<close>. The test
  is JavaScript truthiness: \<^verbatim>\<open>undefined\<close> (no entry), \<^verbatim>\<open>null\<close> and the empty string
  are falsy. The deletions made before a throw stay.

  The object \<^verbatim>\<open>this._map.imports\<close> has no prototype as the class creates it
  (\<^verbatim>\<open>Object.create(null)\<close>, line 49, filled by \<^verbatim>\<open>extend\<close>). It is a plain object, with
  \<^verbatim>\<open>Object.prototype\<close> as its prototype, after \<^verbatim>\<open>sort()\<close> (\<^verbatim>\<open>alphabetize\<close> builds \<^verbatim>\<open>{}\<close>) and
  after \<^verbatim>\<open>set(map)\<close> with a plain object. The two operations do not change which of
  the two it is, so it is given to them as \<open>plain\<close>. On a plain object
  \<^verbatim>\<open>this._map.imports[pkg]\<close> is the own property if there is one, and the inherited
  member (truthy) for a name of \<^verbatim>\<open>Object.prototype\<close>; \<^verbatim>\<open>delete\<close> removes own properties
  only.
\<close>

definition truthy :: "string option option \<Rightarrow> bool" where
  "truthy v = (case v of Some (Some s) \<Rightarrow> s \<noteq> [] | _ \<Rightarrow> False)"

definition inherited :: "bool \<Rightarrow> string \<Rightarrow> bool" where
  "inherited plain pkg = (plain \<and> pkg \<in> set Object_prototype_names)"

definition imports_truthy :: "bool \<Rightarrow> string option obj \<Rightarrow> string \<Rightarrow> bool" where
  "imports_truthy plain im pkg =
     (case obj_get im pkg of
        Some v \<Rightarrow> truthy (Some v)
      | None \<Rightarrow> inherited plain pkg)"

definition not_entry_message :: "string \<Rightarrow> string \<Rightarrow> string" where
  "not_entry_message verb pkg =
     ''Cannot '' @ verb @ '' package '' @ pkg @ '' as it is not a top-level ''
       @ [CHR 0x22] @ ''imports'' @ [CHR 0x22] @ '' entry.''"

fun remove_packages ::
  "string \<Rightarrow> bool \<Rightarrow> string list \<Rightarrow> string option obj
     \<Rightarrow> error option \<times> string option obj" where
  "remove_packages verb plain [] im = (None, im)"
| "remove_packages verb plain (pkg # pkgs) im =
     (if \<not> imports_truthy plain im pkg
      then (Some (Error (not_entry_message verb pkg)), im)
      else remove_packages verb plain pkgs (obj_delete pkg im))"

definition set_imports :: "string option obj \<Rightarrow> TraceMap \<Rightarrow> TraceMap" where
  "set_imports im t = t\<lparr>tm_map := (tm_map t)\<lparr>m_imports := im\<rparr>\<rparr>"

text \<open>\<^verbatim>\<open>upgrade\<close>: the argument handling, the loop, then the call of \<^verbatim>\<open>install\<close>
  (not awaited), which is where the gate is entered.\<close>

definition upgrade ::
  "bool \<Rightarrow> modules_arg \<Rightarrow> InstallOptions \<Rightarrow> nat \<Rightarrow> TraceMap \<Rightarrow> op_status \<times> TraceMap" where
  "upgrade plain packages opts r t =
     (let (pkgs, opts') =
            (case packages of
               MString s \<Rightarrow> ([s], opts)
             | MArray ps \<Rightarrow> (ps, opts)
             | MOptions mo \<Rightarrow> (obj_keys (m_imports (tm_map t)), mo)
             | MUndefined \<Rightarrow> (obj_keys (m_imports (tm_map t)), opts))
      in if pkgs = [] then (Threw (Error ''No packages to upgrade.''), t)
         else (case remove_packages ''upgrade'' plain pkgs (m_imports (tm_map t)) of
                 (Some e, im) \<Rightarrow> (Threw e, set_imports im t)
               | (None, im) \<Rightarrow>
                   snd (install (PArray (map Package pkgs)) opts' r (set_imports im t))))"

text \<open>\<^verbatim>\<open>uninstall\<close>: the loop, then \<^verbatim>\<open>this.traceInstall({ clean: true, force })\<close>.\<close>

datatype names_arg = Name string | Names "string list"

definition uninstall ::
  "bool \<Rightarrow> names_arg \<Rightarrow> bool \<Rightarrow> nat \<Rightarrow> TraceMap \<Rightarrow> op_status \<times> TraceMap" where
  "uninstall plain packages force r t =
     (let pkgs = (case packages of Name s \<Rightarrow> [s] | Names ps \<Rightarrow> ps)
      in if pkgs = [] then (Threw (Error ''No packages provided to uninstall.''), t)
         else (case remove_packages ''uninstall'' plain pkgs (m_imports (tm_map t)) of
                 (Some e, im) \<Rightarrow> (Threw e, set_imports im t)
               | (None, im) \<Rightarrow>
                   snd (traceInstall
                          (MOptions \<lparr>opt_lock = None, opt_clean = Some True, opt_force = Some force\<rparr>)
                          no_options r (set_imports im t))))"

text \<open>\<^verbatim>\<open>installEnv\<close>: \<^verbatim>\<open>this._env = [...env]; await this.traceInstall({ clean: true });\<close>\<close>

definition installEnv :: "string list \<Rightarrow> nat \<Rightarrow> TraceMap \<Rightarrow> op_status \<times> TraceMap" where
  "installEnv env r t =
     snd (traceInstall (MOptions \<lparr>opt_lock = None, opt_clean = Some True, opt_force = None\<rparr>)
            no_options r (t\<lparr>tm_env := env\<rparr>))"

section \<open>\<^verbatim>\<open>installtree.ts\<close>: the two helpers of \<^verbatim>\<open>resolve\<close>\<close>

text \<open>The longest of a list of keys, if there is one.\<close>

fun longest :: "string list \<Rightarrow> string option" where
  "longest [] = None"
| "longest (k # ks) =
     (case longest ks of
        None \<Rightarrow> Some k
      | Some k' \<Rightarrow> if length k' > length k then Some k' else Some k)"

text \<open>
  Modelled from the spec: \<^verbatim>\<open>getMapMatch\<close> of \<^verbatim>\<open>installtree.ts\<close>, which is not among the
  sources. Section 4.2, step 3: "an exact key match wins outright; failing that, the
  longest key ending in \<^verbatim>\<open>/\<close> that is a literal prefix of the specifier wins". The result
  is the matched key (\<^verbatim>\<open>resolve\<close> indexes the table with it and takes its length);
  \<open>None\<close> is \<^verbatim>\<open>undefined\<close>.
\<close>

definition getMapMatch :: "string \<Rightarrow> 'v obj \<Rightarrow> string option" where
  "getMapMatch specifier mp =
     (if specifier \<in> set (obj_keys mp) then Some specifier
      else longest (filter (\<lambda>k. endsWith k ''/'' \<and> startsWith specifier k) (obj_keys mp)))"

text \<open>A scope key with its absolute URL string under the base.\<close>

definition scope_candidate :: "url \<Rightarrow> string \<Rightarrow> (string \<times> string) option" where
  "scope_candidate baseUrl scope =
     (case URL_new scope (Some baseUrl) of None \<Rightarrow> None | Some u \<Rightarrow> Some (scope, href u))"

text \<open>
  Modelled from the spec: \<^verbatim>\<open>getScopeMatches\<close> of \<^verbatim>\<open>installtree.ts\<close>, which is not among
  the sources. Section 4.2, step 2: "Collect every scope whose prefix URL is an ancestor
  of the referrer URL (referrer's absolute URL starts with the scope's absolute URL
  string), ordered most-specific (deepest/longest prefix) first." The result pairs each
  scope key with its absolute URL string; a key that is no URL is no candidate.
\<close>

definition getScopeMatches :: "url \<Rightarrow> 'v obj \<Rightarrow> url \<Rightarrow> (string \<times> string) list" where
  "getScopeMatches parentUrl scopes baseUrl =
     sort_key (\<lambda>sh. - int (length (snd sh)))
       (filter (\<lambda>sh. startsWith (href parentUrl) (snd sh))
          (List.map_filter (scope_candidate baseUrl) (obj_keys scopes)))"

section \<open>\<^verbatim>\<open>tracemap.ts\<close>: \<^verbatim>\<open>resolve\<close>\<close>

text \<open>
  The result is \<open>Inr None\<close> for \<^verbatim>\<open>null\<close>, \<open>Inr (Some u)\<close> for a URL and \<open>Inl e\<close> for a
  throw. \<^verbatim>\<open>if (mapMatch)\<close> is JavaScript truthiness of a string or \<^verbatim>\<open>undefined\<close>: the
  empty string is falsy. \<^verbatim>\<open>MODULE_NOT_FOUND s h\<close> is the error with that code and the
  message \<^verbatim>\<open>Unable to resolve "s" from h\<close>.
\<close>

definition matched :: "string option \<Rightarrow> bool" where
  "matched mapMatch = (case mapMatch of None \<Rightarrow> False | Some k \<Rightarrow> k \<noteq> [])"

definition resolve_target ::
  "string \<Rightarrow> string \<Rightarrow> string option option \<Rightarrow> url \<Rightarrow> error + url option" where
  "resolve_target specifier mapMatch target baseUrl =
     (case target of
        Some None \<Rightarrow> Inr None
      | Some (Some tg) \<Rightarrow>
          (case URL_new (tg @ drop (length mapMatch) specifier) (Some baseUrl) of
             None \<Rightarrow> Inl TypeError
           | Some u \<Rightarrow> Inr (Some u))
      | None \<Rightarrow>
          (case URL_new (''undefined'' @ drop (length mapMatch) specifier) (Some baseUrl) of
             None \<Rightarrow> Inl TypeError
           | Some u \<Rightarrow> Inr (Some u)))"

definition resolve_imports :: "string \<Rightarrow> url \<Rightarrow> ImportMap \<Rightarrow> url \<Rightarrow> error + url option" where
  "resolve_imports specifier parentUrl mp baseUrl =
     (let mapMatch = getMapMatch specifier (m_imports mp)
      in if matched mapMatch
         then resolve_target specifier (the mapMatch) (obj_get (m_imports mp) (the mapMatch)) baseUrl
         else Inl (MODULE_NOT_FOUND specifier (href parentUrl)))"

fun resolve_scopes ::
  "string \<Rightarrow> url \<Rightarrow> (string \<times> string) list \<Rightarrow> ImportMap \<Rightarrow> url \<Rightarrow> error + url option" where
  "resolve_scopes specifier parentUrl [] mp baseUrl =
     resolve_imports specifier parentUrl mp baseUrl"
| "resolve_scopes specifier parentUrl ((scope, scopeHref) # scopeMatches) mp baseUrl =
     (case obj_get (m_scopes mp) scope of
        None \<Rightarrow> Inl TypeError
      | Some scopeImports \<Rightarrow>
          (let mapMatch = getMapMatch specifier scopeImports
           in if matched mapMatch
              then resolve_target specifier (the mapMatch)
                     (obj_get scopeImports (the mapMatch)) baseUrl
              else resolve_scopes specifier parentUrl scopeMatches mp baseUrl))"

definition resolve :: "string \<Rightarrow> url \<Rightarrow> ImportMap \<Rightarrow> url \<Rightarrow> error + url option" where
  "resolve specifier parentUrl mp baseUrl =
     (if \<not> isPlain specifier then
        (case URL_new specifier (Some parentUrl) of
           None \<Rightarrow> Inl TypeError
         | Some u \<Rightarrow> Inr (Some u))
      else resolve_scopes specifier parentUrl
             (getScopeMatches parentUrl (m_scopes mp) baseUrl) mp baseUrl)"

section \<open>\<^verbatim>\<open>tracemap.ts\<close>: \<^verbatim>\<open>_baseUrlRelative\<close> and \<^verbatim>\<open>rebase\<close>\<close>

text \<open>The loop of lines 102 to 105 over the two path names, from index \<open>i\<close> on.\<close>

fun sharedBaseIndex_loop :: "string \<Rightarrow> string \<Rightarrow> nat \<Rightarrow> int \<Rightarrow> int" where
  "sharedBaseIndex_loop (b # bs) (u # us) i sharedBaseIndex =
     (if b \<noteq> u then sharedBaseIndex
      else sharedBaseIndex_loop bs us (i + 1) (if u = CHR ''/'' then int i else sharedBaseIndex))"
| "sharedBaseIndex_loop bs us i sharedBaseIndex = sharedBaseIndex"

definition baseUrlRelative :: "url \<Rightarrow> url \<Rightarrow> string" where
  "baseUrlRelative baseUrl u =
     (let baseUrlHref = href baseUrl
      in if startsWith (href u) baseUrlHref then drop (length baseUrlHref) (href u)
         else if origin u \<noteq> origin baseUrl \<or> \<not> startsWith (href u) (origin u)
                   \<or> \<not> startsWith baseUrlHref (origin u)
         then href u
         else (let baseUrlPath = pathname baseUrl;
                   urlPath = pathname u;
                   sharedBaseIndex = sharedBaseIndex_loop baseUrlPath urlPath 0 (- 1)
               in js_repeat ''../''
                    (length (js_split CHR ''/'' (drop (nat (sharedBaseIndex + 1)) baseUrlPath)))
                  @ drop (nat (sharedBaseIndex + 1)) urlPath @ search u @ hash u))"

text \<open>Lines 146 to 150: every non-null entry of \<^verbatim>\<open>imports\<close> is rewritten in place.\<close>

fun rebase_imports ::
  "url \<Rightarrow> url \<Rightarrow> string list \<Rightarrow> string option obj \<Rightarrow> error + string option obj" where
  "rebase_imports oldBaseUrl newBase [] im = Inr im"
| "rebase_imports oldBaseUrl newBase (impt # ks) im =
     (case obj_get im impt of
        Some (Some target) \<Rightarrow>
          (case URL_new target (Some oldBaseUrl) of
             None \<Rightarrow> Inl TypeError
           | Some u \<Rightarrow>
               rebase_imports oldBaseUrl newBase ks
                 (obj_set impt (Some (baseUrlRelative newBase u)) im))
      | _ \<Rightarrow> rebase_imports oldBaseUrl newBase ks im)"

text \<open>Lines 151 to 158: for every non-null entry \<^verbatim>\<open>name\<close> of every scope the statement is
  \<^verbatim>\<open>this._map.imports[name] = ...\<close>; the scope's own object is only read.\<close>

fun rebase_scope_entries ::
  "url \<Rightarrow> url \<Rightarrow> string option obj \<Rightarrow> string option obj \<Rightarrow> error + string option obj" where
  "rebase_scope_entries oldBaseUrl newBase [] im = Inr im"
| "rebase_scope_entries oldBaseUrl newBase ((name, target) # scopeImports) im =
     (case target of
        None \<Rightarrow> rebase_scope_entries oldBaseUrl newBase scopeImports im
      | Some tg \<Rightarrow>
          (case URL_new tg (Some oldBaseUrl) of
             None \<Rightarrow> Inl TypeError
           | Some u \<Rightarrow>
               rebase_scope_entries oldBaseUrl newBase scopeImports
                 (obj_set name (Some (baseUrlRelative newBase u)) im)))"

fun rebase_scopes ::
  "url \<Rightarrow> url \<Rightarrow> string option obj obj \<Rightarrow> string option obj \<Rightarrow> error + string option obj" where
  "rebase_scopes oldBaseUrl newBase [] im = Inr im"
| "rebase_scopes oldBaseUrl newBase ((scope, scopeImports) # scopes) im =
     (case rebase_scope_entries oldBaseUrl newBase scopeImports im of
        Inl e \<Rightarrow> Inl e
      | Inr im' \<Rightarrow> rebase_scopes oldBaseUrl newBase scopes im')"

text \<open>Lines 159 to 168: the new \<^verbatim>\<open>depcache\<close>.\<close>

fun rebase_specifiers :: "url \<Rightarrow> url \<Rightarrow> string list \<Rightarrow> error + string list" where
  "rebase_specifiers oldBaseUrl newBase [] = Inr []"
| "rebase_specifiers oldBaseUrl newBase (specifier # specifiers) =
     (if isPlain specifier then
        (case rebase_specifiers oldBaseUrl newBase specifiers of
           Inl e \<Rightarrow> Inl e
         | Inr rest \<Rightarrow> Inr (specifier # rest))
      else
        (case URL_new specifier (Some oldBaseUrl) of
           None \<Rightarrow> Inl TypeError
         | Some u \<Rightarrow>
             (case rebase_specifiers oldBaseUrl newBase specifiers of
                Inl e \<Rightarrow> Inl e
              | Inr rest \<Rightarrow> Inr (baseUrlRelative newBase u # rest))))"

fun rebase_depcache ::
  "url \<Rightarrow> url \<Rightarrow> string list obj \<Rightarrow> string list obj \<Rightarrow> error + string list obj" where
  "rebase_depcache oldBaseUrl newBase [] newDepcache = Inr newDepcache"
| "rebase_depcache oldBaseUrl newBase ((dep, specifiers) # depcache) newDepcache =
     (case rebase_specifiers oldBaseUrl newBase specifiers of
        Inl e \<Rightarrow> Inl e
      | Inr importsRebased \<Rightarrow>
          (case URL_new dep (Some oldBaseUrl) of
             None \<Rightarrow> Inl TypeError
           | Some u \<Rightarrow>
               rebase_depcache oldBaseUrl newBase depcache
                 (obj_set (baseUrlRelative newBase u) importsRebased newDepcache)))"

text \<open>
  \<^verbatim>\<open>rebase\<close>. \<open>envBaseUrl\<close> is the module-level \<^verbatim>\<open>baseUrl\<close> of \<^verbatim>\<open>utils.ts\<close> (the working
  directory or the document's base). \<open>Inl\<close> is a throw of the URL constructor; the
  handle as the throw leaves it is not described.
\<close>

definition rebase :: "url \<Rightarrow> string option \<Rightarrow> TraceMap \<Rightarrow> error + TraceMap" where
  "rebase envBaseUrl newBaseUrl t =
     (let oldBaseUrl = tm_baseUrl t;
          mp = tm_map t
      in (case URL_new (case newBaseUrl of None \<Rightarrow> href oldBaseUrl | Some s \<Rightarrow> s)
                 (Some envBaseUrl) of
            None \<Rightarrow> Inl TypeError
          | Some u0 \<Rightarrow>
              (let newBase = (if \<not> endsWith (pathname u0) ''/''
                              then set_pathname u0 (pathname u0 @ ''/'') else u0)
               in (case rebase_imports oldBaseUrl newBase (obj_keys (m_imports mp)) (m_imports mp) of
                     Inl e \<Rightarrow> Inl e
                   | Inr im1 \<Rightarrow>
                       (case rebase_scopes oldBaseUrl newBase (m_scopes mp) im1 of
                          Inl e \<Rightarrow> Inl e
                        | Inr im2 \<Rightarrow>
                            (case rebase_depcache oldBaseUrl newBase (m_depcache mp) [] of
                               Inl e \<Rightarrow> Inl e
                             | Inr newDepcache \<Rightarrow>
                                 Inr (t\<lparr>tm_baseUrl := newBase,
                                        tm_map := \<lparr>m_imports = im2, m_scopes = m_scopes mp,
                                                   m_depcache = newDepcache\<rparr>\<rparr>)))))))"

section \<open>\<^verbatim>\<open>tracemap.ts\<close>: \<^verbatim>\<open>flatten\<close>\<close>

text \<open>
  \<^verbatim>\<open>flatten\<close> holds references to scope objects in local variables while it assigns
  other objects to keys of \<^verbatim>\<open>this._map.scopes\<close>, and two of its variables can hold the
  same object. The scopes are therefore kept in a store: \<open>fl_heap\<close> lists the objects,
  a reference is an index into it, and \<open>fl_scopes\<close> is \<^verbatim>\<open>this._map.scopes\<close> with
  references as values. On entry every key has an object of its own (as after parsing
  a JSON text).
\<close>

record flat =
  fl_scopes :: "nat obj"
  fl_heap :: "string option obj list"

text \<open>Lines 176 to 181: the key of the origin-root scope, if there is one.\<close>

definition scopeBaseUrl_of :: "url \<Rightarrow> url \<Rightarrow> string option" where
  "scopeBaseUrl_of baseUrl scopeUrl =
     (if protocol scopeUrl \<noteq> ''file:'' then
        (if origin scopeUrl = origin baseUrl \<and> startsWith (href scopeUrl) (origin baseUrl)
         then Some ''/''
         else if startsWith (href scopeUrl) (origin scopeUrl)
         then Some (origin scopeUrl @ ''/'')
         else None)
      else None)"

text \<open>Line 191: \<^verbatim>\<open>!existing || new URL(existing, this._baseUrl).href === targetUrl.href\<close>.\<close>

definition hoistable :: "url \<Rightarrow> string option option \<Rightarrow> url \<Rightarrow> error + bool" where
  "hoistable baseUrl existing targetUrl =
     (case existing of
        Some (Some ex) \<Rightarrow>
          (if ex = [] then Inr True
           else (case URL_new ex (Some baseUrl) of
                   None \<Rightarrow> Inl TypeError
                 | Some u \<Rightarrow> Inr (href u = href targetUrl)))
      | _ \<Rightarrow> Inr True)"

text \<open>
  Lines 186 to 199, over the keys that \<^verbatim>\<open>scopeImports\<close> had when the loop began.
  \<open>scopeBase\<close> and \<open>scopeImports\<close> are references. Together with the store the result
  holds \<^verbatim>\<open>flattenedAll\<close>.
\<close>

fun flatten_names ::
  "url \<Rightarrow> string \<Rightarrow> nat \<Rightarrow> nat \<Rightarrow> string list \<Rightarrow> bool \<Rightarrow> flat \<Rightarrow> error + (bool \<times> flat)" where
  "flatten_names baseUrl scopeBaseUrl scopeBase scopeImports [] flattenedAll st =
     Inr (flattenedAll, st)"
| "flatten_names baseUrl scopeBaseUrl scopeBase scopeImports (name # names) flattenedAll st =
     (let existing = obj_get (fl_heap st ! scopeBase) name;
          target = obj_get (fl_heap st ! scopeImports) name
      in (case target of
            Some None \<Rightarrow>
              flatten_names baseUrl scopeBaseUrl scopeBase scopeImports names flattenedAll st
          | _ \<Rightarrow>
              (case URL_new (case target of Some (Some tg) \<Rightarrow> tg | _ \<Rightarrow> ''undefined'')
                      (Some baseUrl) of
                 None \<Rightarrow> Inl TypeError
               | Some targetUrl \<Rightarrow>
                   (case hoistable baseUrl existing targetUrl of
                      Inl e \<Rightarrow> Inl e
                    | Inr True \<Rightarrow>
                        (let h1 = (fl_heap st)
                                    [scopeBase :=
                                       obj_set name (Some (baseUrlRelative baseUrl targetUrl))
                                         (fl_heap st ! scopeBase)];
                             h2 = h1[scopeImports := obj_delete name (h1 ! scopeImports)];
                             h3 = h2 @ [alphabetize (h2 ! scopeBase)]
                         in flatten_names baseUrl scopeBaseUrl scopeBase scopeImports names
                              flattenedAll
                              \<lparr>fl_scopes = obj_set scopeBaseUrl (length h2) (fl_scopes st),
                               fl_heap = h3\<rparr>)
                    | Inr False \<Rightarrow>
                        flatten_names baseUrl scopeBaseUrl scopeBase scopeImports names
                          False st))))"

text \<open>Lines 173 to 202, over the keys that \<^verbatim>\<open>this._map.scopes\<close> had when the loop began.\<close>

fun flatten_scopes :: "url \<Rightarrow> string list \<Rightarrow> flat \<Rightarrow> error + flat" where
  "flatten_scopes baseUrl [] st = Inr st"
| "flatten_scopes baseUrl (scope # scopes) st =
     (case URL_new scope (Some baseUrl) of
        None \<Rightarrow> Inl TypeError
      | Some scopeUrl \<Rightarrow>
          (case scopeBaseUrl_of baseUrl scopeUrl of
             None \<Rightarrow> flatten_scopes baseUrl scopes st
           | Some scopeBaseUrl \<Rightarrow>
               (let (scopeBase, st1) =
                      (case obj_get (fl_scopes st) scopeBaseUrl of
                         Some r \<Rightarrow> (r, st)
                       | None \<Rightarrow> (length (fl_heap st), st\<lparr>fl_heap := fl_heap st @ [[]]\<rparr>))
                in (case obj_get (fl_scopes st1) scope of
                      None \<Rightarrow> Inl TypeError
                    | Some scopeImports \<Rightarrow>
                        (case flatten_names baseUrl scopeBaseUrl scopeBase scopeImports
                                (obj_keys (fl_heap st1 ! scopeImports)) True st1 of
                           Inl e \<Rightarrow> Inl e
                         | Inr (flattenedAll, st2) \<Rightarrow>
                             flatten_scopes baseUrl scopes
                               (if flattenedAll
                                then st2\<lparr>fl_scopes := obj_delete scope (fl_scopes st2)\<rparr>
                                else st2))))))"

definition flatten :: "TraceMap \<Rightarrow> error + TraceMap" where
  "flatten t =
     (let mp = tm_map t;
          st0 = \<lparr>fl_scopes = zip (obj_keys (m_scopes mp)) [0 ..< length (m_scopes mp)],
                 fl_heap = map snd (m_scopes mp)\<rparr>
      in (case flatten_scopes (tm_baseUrl t) (obj_keys (m_scopes mp)) st0 of
            Inl e \<Rightarrow> Inl e
          | Inr st \<Rightarrow>
              Inr (t\<lparr>tm_map :=
                       mp\<lparr>m_scopes := map (\<lambda>kr. (fst kr, fl_heap st ! snd kr)) (fl_scopes st),
                          m_depcache := filter (\<lambda>dl. snd dl \<noteq> []) (m_depcache mp)\<rparr>\<rparr>)))"

section \<open>\<^verbatim>\<open>tracemap.ts\<close>: \<^verbatim>\<open>trace\<close>\<close>

text \<open>
  A \<^verbatim>\<open>Trace\<close> entry; \<open>None\<close> is \<^verbatim>\<open>NaN\<close>. \<open>tracing\<close> is what all calls of \<^verbatim>\<open>doTrace\<close> of
  one \<^verbatim>\<open>trace\<close> share: \<^verbatim>\<open>map\<close>, \<^verbatim>\<open>trace\<close>, \<^verbatim>\<open>postOrder\<close>, and the first rejection that
  \<^verbatim>\<open>Promise.all\<close> has seen.
\<close>

record trace_entry =
  te_deps :: "url option obj"
  te_size :: "nat option"
  te_order :: "nat option"

record tracing =
  tr_map :: "url option obj"
  tr_trace :: "trace_entry obj"
  tr_postOrder :: nat
  tr_rejected :: "error option"

text \<open>
  \<^verbatim>\<open>doTrace\<close> is an asynchronous function: it runs until it awaits the analyzer
  (\<^verbatim>\<open>await analyze(...)\<close>), and goes on when the analysis has arrived. A \<open>frame\<close> is a
  call of \<^verbatim>\<open>doTrace\<close> that has created its entry: the URL it resolved, its referrer
  and, after the analysis, the dependencies its loop has still to trace. A task is one
  of the calls that \<^verbatim>\<open>trace\<close> starts, with the calls nested in it, innermost first; the
  innermost awaits its analysis.
\<close>

record frame =
  fr_resolved :: url
  fr_parentUrl :: url
  fr_deps :: "string list"

datatype task = Awaiting "frame list" | Finished | Rejected error

datatype entered = Returned | Suspended frame | Thrown error

text \<open>\<^verbatim>\<open>curMap[specifier] = resolved\<close>: \<open>curMap\<close> is \<^verbatim>\<open>map\<close> (owner \<open>None\<close>) or the \<^verbatim>\<open>deps\<close>
  of the entry of a URL.\<close>

definition record_dep :: "string option \<Rightarrow> string \<Rightarrow> url option \<Rightarrow> tracing \<Rightarrow> tracing" where
  "record_dep owner specifier resolved st =
     (case owner of
        None \<Rightarrow> st\<lparr>tr_map := obj_set specifier resolved (tr_map st)\<rparr>
      | Some h \<Rightarrow>
          (case obj_get (tr_trace st) h of
             None \<Rightarrow> st
           | Some e \<Rightarrow>
               st\<lparr>tr_trace :=
                    obj_set h (e\<lparr>te_deps := obj_set specifier resolved (te_deps e)\<rparr>)
                      (tr_trace st)\<rparr>))"

text \<open>Lines 218 to 228, up to the call of the analyzer.\<close>

definition doTrace_enter ::
  "ImportMap \<Rightarrow> url \<Rightarrow> string \<Rightarrow> url \<Rightarrow> string option \<Rightarrow> tracing \<Rightarrow> entered \<times> tracing" where
  "doTrace_enter mp baseUrl specifier parentUrl owner st =
     (case resolve specifier parentUrl mp baseUrl of
        Inl e \<Rightarrow> (Thrown e, st)
      | Inr resolved \<Rightarrow>
          (let st1 = record_dep owner specifier resolved st
           in (case resolved of
                 None \<Rightarrow> (Returned, st1)
               | Some u \<Rightarrow>
                   if obj_get (tr_trace st1) (href u) \<noteq> None then (Returned, st1)
                   else (Suspended \<lparr>fr_resolved = u, fr_parentUrl = parentUrl, fr_deps = []\<rparr>,
                         st1\<lparr>tr_trace :=
                               obj_set (href u) \<lparr>te_deps = [], te_size = None, te_order = None\<rparr>
                                 (tr_trace st1)\<rparr>))))"

definition set_size :: "string \<Rightarrow> nat \<Rightarrow> tracing \<Rightarrow> tracing" where
  "set_size h sz st =
     (case obj_get (tr_trace st) h of
        None \<Rightarrow> st
      | Some e \<Rightarrow> st\<lparr>tr_trace := obj_set h (e\<lparr>te_size := Some sz\<rparr>) (tr_trace st)\<rparr>)"

text \<open>Line 233: \<^verbatim>\<open>curTrace.order = postOrder++\<close>.\<close>

definition set_order :: "string \<Rightarrow> tracing \<Rightarrow> tracing" where
  "set_order h st =
     (case obj_get (tr_trace st) h of
        None \<Rightarrow> st\<lparr>tr_postOrder := tr_postOrder st + 1\<rparr>
      | Some e \<Rightarrow>
          st\<lparr>tr_trace := obj_set h (e\<lparr>te_order := Some (tr_postOrder st)\<rparr>) (tr_trace st),
             tr_postOrder := tr_postOrder st + 1\<rparr>)"

datatype deps_result = DepsDone | DepSuspended frame "string list" | DepThrown error

text \<open>Lines 230 to 232: the loop over the dependencies of \<open>resolved\<close>, one call of
  \<^verbatim>\<open>doTrace\<close> after the other, until one of them awaits its analysis.\<close>

fun run_deps ::
  "ImportMap \<Rightarrow> url \<Rightarrow> url \<Rightarrow> string list \<Rightarrow> tracing \<Rightarrow> deps_result \<times> tracing" where
  "run_deps mp baseUrl resolved [] st = (DepsDone, st)"
| "run_deps mp baseUrl resolved (dep # deps) st =
     (case doTrace_enter mp baseUrl dep resolved (Some (href resolved)) st of
        (Thrown e, st') \<Rightarrow> (DepThrown e, st')
      | (Returned, st') \<Rightarrow> run_deps mp baseUrl resolved deps st'
      | (Suspended inner, st') \<Rightarrow> (DepSuspended inner deps, st'))"

text \<open>A task goes on: the innermost call runs its loop and takes its order, then the
  call that awaited it goes on with its own loop, and so on.\<close>

fun run_frames :: "ImportMap \<Rightarrow> url \<Rightarrow> frame list \<Rightarrow> tracing \<Rightarrow> task \<times> tracing" where
  "run_frames mp baseUrl [] st = (Finished, st)"
| "run_frames mp baseUrl (fr # outer) st =
     (case run_deps mp baseUrl (fr_resolved fr) (fr_deps fr) st of
        (DepsDone, st') \<Rightarrow> run_frames mp baseUrl outer (set_order (href (fr_resolved fr)) st')
      | (DepSuspended inner deps, st') \<Rightarrow> (Awaiting (inner # fr\<lparr>fr_deps := deps\<rparr> # outer), st')
      | (DepThrown e, st') \<Rightarrow> (Rejected e, st'))"

text \<open>
  The analyzer collaborator (\<^verbatim>\<open>analyze\<close> of \<^verbatim>\<open>installtree.ts\<close>) is a parameter: from the
  resolved URL string, the referrer and the system flag to the dependency specifiers
  and the size, or a rejection. \<open>resume\<close> is a task receiving the analysis it awaits.
\<close>

type_synonym analyzer = "string \<Rightarrow> url \<Rightarrow> bool \<Rightarrow> error + (string list \<times> nat)"

definition resume ::
  "analyzer \<Rightarrow> bool \<Rightarrow> ImportMap \<Rightarrow> url \<Rightarrow> frame list \<Rightarrow> tracing \<Rightarrow> task \<times> tracing" where
  "resume analyze system mp baseUrl frames st =
     (case frames of
        [] \<Rightarrow> (Finished, st)
      | fr # outer \<Rightarrow>
          (case analyze (href (fr_resolved fr)) (fr_parentUrl fr) system of
             Inl e \<Rightarrow> (Rejected e, st)
           | Inr (deps, sz) \<Rightarrow>
               run_frames mp baseUrl (fr\<lparr>fr_deps := deps\<rparr> # outer)
                 (set_size (href (fr_resolved fr)) sz st)))"

definition note_rejection :: "task \<Rightarrow> tracing \<Rightarrow> tracing" where
  "note_rejection tk st =
     (case tk of
        Rejected e \<Rightarrow> (if tr_rejected st = None then st\<lparr>tr_rejected := Some e\<rparr> else st)
      | _ \<Rightarrow> st)"

text \<open>Line 238, \<^verbatim>\<open>specifiers.map(specifier => doTrace(specifier, this._baseUrl, trace, map))\<close>:
  each call runs up to its first \<^verbatim>\<open>await\<close> before the next one starts.\<close>

fun start_tasks ::
  "ImportMap \<Rightarrow> url \<Rightarrow> string list \<Rightarrow> tracing \<Rightarrow> task list \<times> tracing" where
  "start_tasks mp baseUrl [] st = ([], st)"
| "start_tasks mp baseUrl (specifier # specifiers) st =
     (let (en, st1) = doTrace_enter mp baseUrl specifier baseUrl None st;
          tk = (case en of
                  Thrown e \<Rightarrow> Rejected e
                | Returned \<Rightarrow> Finished
                | Suspended fr \<Rightarrow> Awaiting [fr]);
          (tasks, st2) = start_tasks mp baseUrl specifiers (note_rejection tk st1)
      in (tk # tasks, st2))"

text \<open>
  The order in which the analyses arrive is not the program's choice. It is given as a
  schedule: the list of the tasks, by index, in the order in which an analysis arrives.
  An entry that names no waiting task is skipped.
\<close>

fun run_schedule ::
  "analyzer \<Rightarrow> bool \<Rightarrow> ImportMap \<Rightarrow> url \<Rightarrow> nat list \<Rightarrow> task list \<Rightarrow> tracing
     \<Rightarrow> task list \<times> tracing" where
  "run_schedule analyze system mp baseUrl [] tasks st = (tasks, st)"
| "run_schedule analyze system mp baseUrl (i # schedule) tasks st =
     (if i < length tasks then
        (case tasks ! i of
           Awaiting frames \<Rightarrow>
             (let (tk, st') = resume analyze system mp baseUrl frames st
              in run_schedule analyze system mp baseUrl schedule (tasks[i := tk])
                   (note_rejection tk st'))
         | _ \<Rightarrow> run_schedule analyze system mp baseUrl schedule tasks st)
      else run_schedule analyze system mp baseUrl schedule tasks st)"

definition is_awaiting :: "task \<Rightarrow> bool" where
  "is_awaiting tk = (case tk of Awaiting _ \<Rightarrow> True | _ \<Rightarrow> False)"

text \<open>
  \<^verbatim>\<open>trace\<close>: \<open>Some (Inr (map, trace))\<close> when every task has finished, \<open>Some (Inl e)\<close> when
  \<^verbatim>\<open>Promise.all\<close> has rejected, and \<open>None\<close> when the schedule ends with a task still
  waiting.
\<close>

definition trace ::
  "analyzer \<Rightarrow> nat list \<Rightarrow> string list \<Rightarrow> bool \<Rightarrow> TraceMap
     \<Rightarrow> (error + (url option obj \<times> trace_entry obj)) option" where
  "trace analyze schedule specifiers system t =
     (let (tasks0, st0) =
            start_tasks (tm_map t) (tm_baseUrl t) specifiers
              \<lparr>tr_map = [], tr_trace = [], tr_postOrder = 0, tr_rejected = None\<rparr>;
          (tasks, st) =
            run_schedule analyze system (tm_map t) (tm_baseUrl t) schedule tasks0 st0
      in (case tr_rejected st of
            Some e \<Rightarrow> Some (Inl e)
          | None \<Rightarrow>
              if list_ex is_awaiting tasks then None
              else Some (Inr (tr_map st, tr_trace st))))"

section \<open>\<^verbatim>\<open>utils.ts\<close>: \<^verbatim>\<open>deepClone\<close>, and the getter \<^verbatim>\<open>map\<close>\<close>

text \<open>
  What \<^verbatim>\<open>deepClone\<close> is for shows only where objects have an identity. A JavaScript
  value is a primitive (a string, or \<open>None\<close> for \<^verbatim>\<open>null\<close>), an array of strings (the
  type \<^verbatim>\<open>ImportMap\<close> has no other arrays) or an object; every array and every object
  carries the address at which it lives. \<open>deepClone n props\<close> is \<^verbatim>\<open>deepClone(obj)\<close>
  for an object with the properties \<open>props\<close>, when \<open>n\<close> is the next free address;
  it returns the new object and the next free address. \<open>deepClone_props\<close> is the loop
  of lines 43 to 51: \<^verbatim>\<open>[...val]\<close> for an array, \<^verbatim>\<open>deepClone(val)\<close> for an object, and
  the value itself otherwise.
\<close>

datatype jsval =
    Prim "string option"
  | Arr nat "string list"
  | Obj nat "(string \<times> jsval) list"

function deepClone :: "nat \<Rightarrow> (string \<times> jsval) list \<Rightarrow> jsval \<times> nat"
  and deepClone_props :: "nat \<Rightarrow> (string \<times> jsval) list \<Rightarrow> (string \<times> jsval) list \<times> nat" where
  "deepClone n props =
     (case deepClone_props (Suc n) props of (outProps, n') \<Rightarrow> (Obj n outProps, n'))"
| "deepClone_props n [] = ([], n)"
| "deepClone_props n ((p, Arr b xs) # rest) =
     (case deepClone_props (Suc n) rest of (outRest, n2) \<Rightarrow> ((p, Arr n xs) # outRest, n2))"
| "deepClone_props n ((p, Obj b ps) # rest) =
     (case deepClone n ps of (out, n1) \<Rightarrow>
        (case deepClone_props n1 rest of (outRest, n2) \<Rightarrow> ((p, out) # outRest, n2)))"
| "deepClone_props n ((p, Prim x) # rest) =
     (case deepClone_props n rest of (outRest, n2) \<Rightarrow> ((p, Prim x) # outRest, n2))"
  by pat_completeness auto
termination
  by (relation "measure (\<lambda>x. case x of
                   Inl (n, ps) \<Rightarrow> 2 * size_list (size_prod (\<lambda>_. 0) size) ps + 2
                 | Inr (n, ps) \<Rightarrow> 2 * size_list (size_prod (\<lambda>_. 0) size) ps + 1)")
     auto

text \<open>The addresses of a value, and the value without them (what a deep comparison
  sees).\<close>

fun addrs :: "jsval \<Rightarrow> nat list" where
  "addrs (Prim x) = []"
| "addrs (Arr a xs) = [a]"
| "addrs (Obj a props) = a # concat (map (\<lambda>pv. addrs (snd pv)) props)"

fun erase :: "jsval \<Rightarrow> jsval" where
  "erase (Prim x) = Prim x"
| "erase (Arr a xs) = Arr 0 xs"
| "erase (Obj a props) = Obj 0 (map (\<lambda>pv. (fst pv, erase (snd pv))) props)"

text \<open>A mutation through a reference: the array or object at address \<open>a\<close> becomes \<open>w\<close>,
  wherever a value holds it.\<close>

fun assign :: "nat \<Rightarrow> jsval \<Rightarrow> jsval \<Rightarrow> jsval" where
  "assign a w (Prim x) = Prim x"
| "assign a w (Arr b xs) = (if b = a then w else Arr b xs)"
| "assign a w (Obj b props) =
     (if b = a then w else Obj b (map (\<lambda>pv. (fst pv, assign a w (snd pv))) props))"

text \<open>
  \<^verbatim>\<open>this._map\<close> with its addresses, each object and array at an address of its own: the
  map object at 0, the three tables at 1, 2 and 3, then the scopes, then the lists of
  \<^verbatim>\<open>depcache\<close>. \<open>heap_size\<close> is the next free address.
\<close>

definition prim_props :: "string option obj \<Rightarrow> (string \<times> jsval) list" where
  "prim_props tbl = map (\<lambda>kv. (fst kv, Prim (snd kv))) tbl"

fun located_scopes :: "nat \<Rightarrow> string option obj obj \<Rightarrow> (string \<times> jsval) list" where
  "located_scopes n [] = []"
| "located_scopes n ((scope, tbl) # rest) =
     (scope, Obj n (prim_props tbl)) # located_scopes (Suc n) rest"

fun located_depcache :: "nat \<Rightarrow> string list obj \<Rightarrow> (string \<times> jsval) list" where
  "located_depcache n [] = []"
| "located_depcache n ((dep, xs) # rest) = (dep, Arr n xs) # located_depcache (Suc n) rest"

definition located_props :: "ImportMap \<Rightarrow> (string \<times> jsval) list" where
  "located_props mp =
     [(''imports'', Obj 1 (prim_props (m_imports mp))),
      (''scopes'', Obj 2 (located_scopes 4 (m_scopes mp))),
      (''depcache'', Obj 3 (located_depcache (4 + length (m_scopes mp)) (m_depcache mp)))]"

definition located :: "ImportMap \<Rightarrow> jsval" where
  "located mp = Obj 0 (located_props mp)"

definition heap_size :: "ImportMap \<Rightarrow> nat" where
  "heap_size mp = 4 + length (m_scopes mp) + length (m_depcache mp)"

text \<open>\<^verbatim>\<open>get map () { return deepClone(this._map); }\<close>\<close>

definition map_getter :: "TraceMap \<Rightarrow> jsval" where
  "map_getter t = fst (deepClone (heap_size (tm_map t)) (located_props (tm_map t)))"

text \<open>The addresses \<open>as\<close> all lie from \<open>n\<close> up to, and not including, \<open>n'\<close>.\<close>

definition fresh_in :: "nat \<Rightarrow> nat \<Rightarrow> nat list \<Rightarrow> bool" where
  "fresh_in n n' as = (n \<le> n' \<and> list_all (\<lambda>a. n \<le> a \<and> a < n') as)"


section \<open>Notions of the specification\<close>

text \<open>
  The absolute resolution target of an entry with target text \<open>target\<close>: the URL string
  that \<^verbatim>\<open>resolve\<close> builds for an exact match, \<^verbatim>\<open>new URL(target, baseUrl).href\<close>.
\<close>

definition entry_target :: "url \<Rightarrow> string \<Rightarrow> string option" where
  "entry_target baseUrl target = map_option href (URL_new target (Some baseUrl))"

text \<open>
  Section 4.2 in its own words. A table matches a specifier when the best-prefix rule
  finds a key; for \<^verbatim>\<open>resolve\<close> the key has to be non-empty (\<open>matched\<close>). The winning
  table is that of the first candidate scope that matches, in the order of
  \<^verbatim>\<open>getScopeMatches\<close>, and the top-level table if no candidate scope matches and it does.
  The winning entry is the matched key of the winning table with its target.
\<close>

definition scope_table :: "ImportMap \<Rightarrow> string \<Rightarrow> string option obj" where
  "scope_table mp scope = (case obj_get (m_scopes mp) scope of None \<Rightarrow> [] | Some tbl \<Rightarrow> tbl)"

definition scope_matches :: "string \<Rightarrow> ImportMap \<Rightarrow> string \<times> string \<Rightarrow> bool" where
  "scope_matches specifier mp sh = matched (getMapMatch specifier (scope_table mp (fst sh)))"

definition winning_table ::
  "string \<Rightarrow> url \<Rightarrow> ImportMap \<Rightarrow> url \<Rightarrow> string option obj option" where
  "winning_table specifier parentUrl mp baseUrl =
     (case find (scope_matches specifier mp) (getScopeMatches parentUrl (m_scopes mp) baseUrl) of
        Some sh \<Rightarrow> Some (scope_table mp (fst sh))
      | None \<Rightarrow> if matched (getMapMatch specifier (m_imports mp)) then Some (m_imports mp) else None)"

definition table_entry :: "string \<Rightarrow> string option obj \<Rightarrow> (string \<times> string option) option" where
  "table_entry specifier tbl =
     (case getMapMatch specifier tbl of
        None \<Rightarrow> None
      | Some k \<Rightarrow> (case obj_get tbl k of None \<Rightarrow> None | Some tg \<Rightarrow> Some (k, tg)))"

definition winning_entry ::
  "string \<Rightarrow> url \<Rightarrow> ImportMap \<Rightarrow> url \<Rightarrow> (string \<times> string option) option" where
  "winning_entry specifier parentUrl mp baseUrl =
     (case winning_table specifier parentUrl mp baseUrl of
        None \<Rightarrow> None
      | Some tbl \<Rightarrow> table_entry specifier tbl)"

text \<open>What \<^verbatim>\<open>resolve\<close> returns for a target text and the part of the specifier after the
  matched key.\<close>

definition target_url :: "string \<Rightarrow> string \<Rightarrow> string \<Rightarrow> url \<Rightarrow> error + url option" where
  "target_url tg k specifier baseUrl =
     (case URL_new (tg @ drop (length k) specifier) (Some baseUrl) of
        None \<Rightarrow> Inl TypeError
      | Some u \<Rightarrow> Inr (Some u))"

text \<open>The outcome that section 4.2, steps 5 to 7, gives for a winning entry, or for
  none.\<close>

definition entry_result ::
  "string \<Rightarrow> url \<Rightarrow> (string \<times> string option) option \<Rightarrow> url \<Rightarrow> error + url option" where
  "entry_result specifier parentUrl en baseUrl =
     (case en of
        None \<Rightarrow> Inl (MODULE_NOT_FOUND specifier (href parentUrl))
      | Some (k, None) \<Rightarrow> Inr None
      | Some (k, Some tg) \<Rightarrow> target_url tg k specifier baseUrl)"

text \<open>Handles for the examples: the base URL \<^verbatim>\<open>https://h\<close> followed by a path, the
  default environment, the gate free.\<close>

definition https_h :: "string \<Rightarrow> url" where
  "https_h p = \<lparr>protocol = ''https:'', host = Some ''h'', pathname = p, search = [], hash = []\<rparr>"

definition handle_at :: "string \<Rightarrow> ImportMap \<Rightarrow> TraceMap" where
  "handle_at p mp =
     \<lparr>tm_baseUrl = https_h p, tm_map = mp, tm_env = [''browser'', ''production''],
      tm_p = \<lparr>c = 0, q = []\<rparr>\<rparr>"

definition cwd :: url where
  "cwd = \<lparr>protocol = ''file:'', host = Some [], pathname = ''/w/'', search = [], hash = []\<rparr>"

text \<open>An analyzer for the examples: the module \<^verbatim>\<open>https://h/a.js\<close> imports \<^verbatim>\<open>B\<close> and has
  size 10, every other module imports nothing and has size 20.\<close>

definition two_modules :: analyzer where
  "two_modules h parentUrl system =
     (if h = ''https://h/a.js'' then Inr ([''B''], 10) else Inr ([], 20))"

section \<open>The exclusivity gate under contention\<close>

lemma pool_next_calls_nothing: "fst (pool_next p) = []"
  by (simp add: pool_next_def Let_def)

text \<open>
  Claim C1. Two install-family operations on one TraceMap whose gate is free: the first
  (\<^verbatim>\<open>traceInstall\<close>, with resolve function 1 should it have to wait) is let in, the
  second (\<^verbatim>\<open>install\<close>, resolve function 2) is queued. When the first settles, with
  or without an error, \<^verbatim>\<open>next\<close> takes resolve function 2 off the queue and calls
  nothing: the second operation is not granted the slot, it is no longer queued, and
  the counter stays at 1, so a third operation is queued as well.
\<close>

theorem second_caller_never_granted:
  "let t0 = \<lparr>tm_baseUrl = b, tm_map = m, tm_env = env, tm_p = \<lparr>c = 0, q = []\<rparr>\<rparr>;
        (args1, s1, t1) = traceInstall modules opts1 1 t0;
        (args2, s2, t2) = install packages opts2 2 t1;
        (err, woken, t3) = gated_finish e m' t2;
        (args3, s3, t4) = lockInstall opts3 3 t3
    in s1 = Running \<and> s2 = Queued 2 \<and> q (tm_p t2) = [2]
       \<and> woken = [] \<and> q (tm_p t3) = [] \<and> c (tm_p t3) = 1
       \<and> s3 = Queued 3"
  by (simp add: traceInstall_def install_def lockInstall_def gated_finish_def gate_enter_def
      pool_job_def pool_next_def Let_def)

section \<open>\<^verbatim>\<open>rebase\<close> and the targets of the entries\<close>

text \<open>
  Claim C2. A handle at \<^verbatim>\<open>https://h/a/b/\<close> with the top-level entry \<^verbatim>\<open>x\<close> to
  \<^verbatim>\<open>./x.js\<close> and, in the scope \<^verbatim>\<open>./sub/\<close>, the entry \<^verbatim>\<open>y\<close> to \<^verbatim>\<open>./sub/y.js\<close>, is rebased to
  \<^verbatim>\<open>https://h/a/c/\<close>. The top-level entry becomes \<^verbatim>\<open>../../b/x.js\<close>, one \<^verbatim>\<open>../\<close> too many:
  its target moves from \<^verbatim>\<open>https://h/a/b/x.js\<close> to \<^verbatim>\<open>https://h/b/x.js\<close>. The scope's
  mapping is left as it was, so the target of its entry moves from
  \<^verbatim>\<open>https://h/a/b/sub/y.js\<close> to \<^verbatim>\<open>https://h/a/c/sub/y.js\<close>, and the rewritten text is
  stored as a new top-level entry \<^verbatim>\<open>y\<close> instead.
\<close>

theorem rebase_moves_targets:
  "map_sum id
     (\<lambda>t. (href (tm_baseUrl t), m_imports (tm_map t), m_scopes (tm_map t),
            entry_target (tm_baseUrl t) ''../../b/x.js'',
            entry_target (tm_baseUrl t) ''./sub/y.js''))
     (rebase cwd (Some ''https://h/a/c/'')
        (handle_at ''/a/b/''
           \<lparr>m_imports = [(''x'', Some ''./x.js'')],
            m_scopes = [(''./sub/'', [(''y'', Some ''./sub/y.js'')])],
            m_depcache = []\<rparr>))
   = Inr (''https://h/a/c/'',
          [(''x'', Some ''../../b/x.js''), (''y'', Some ''../../b/sub/y.js'')],
          [(''./sub/'', [(''y'', Some ''./sub/y.js'')])],
          Some ''https://h/b/x.js'',
          Some ''https://h/a/c/sub/y.js'')
   \<and> entry_target (https_h ''/a/b/'') ''./x.js'' = Some ''https://h/a/b/x.js''
   \<and> entry_target (https_h ''/a/b/'') ''./sub/y.js'' = Some ''https://h/a/b/sub/y.js''"
  by code_simp

text \<open>
  Claim C6. A handle at \<^verbatim>\<open>https://h/a/\<close> with the top-level entry \<^verbatim>\<open>x\<close> to \<^verbatim>\<open>./x.js\<close>
  and, in the scope \<^verbatim>\<open>./sub/\<close>, an entry \<^verbatim>\<open>x\<close> to \<^verbatim>\<open>./sub/x.js\<close>, is rebased to
  \<^verbatim>\<open>https://h/b/\<close> and back to \<^verbatim>\<open>https://h/a/\<close>. Both times the scope's entry is
  written over the top-level entry of the same name: after the round trip the target
  of the top-level entry \<^verbatim>\<open>x\<close> is \<^verbatim>\<open>https://h/b/sub/x.js\<close>, and it was
  \<^verbatim>\<open>https://h/a/x.js\<close>.
\<close>

theorem rebase_round_trip_moves_target:
  "(case rebase cwd (Some ''https://h/b/'')
           (handle_at ''/a/''
              \<lparr>m_imports = [(''x'', Some ''./x.js'')],
               m_scopes = [(''./sub/'', [(''x'', Some ''./sub/x.js'')])],
               m_depcache = []\<rparr>) of
      Inl e \<Rightarrow> Inl e
    | Inr t1 \<Rightarrow>
        map_sum id
          (\<lambda>t. (href (tm_baseUrl t), m_imports (tm_map t),
                 entry_target (tm_baseUrl t) ''../../b/sub/x.js''))
          (rebase cwd (Some ''https://h/a/'') t1))
   = Inr (''https://h/a/'', [(''x'', Some ''../../b/sub/x.js'')], Some ''https://h/b/sub/x.js'')
   \<and> entry_target (https_h ''/a/'') ''./x.js'' = Some ''https://h/a/x.js''"
  by code_simp

section \<open>\<^verbatim>\<open>flatten\<close>, applied twice\<close>

text \<open>
  Claim C7. A handle at \<^verbatim>\<open>https://h/a/\<close> with one scope, \<^verbatim>\<open>./sub/\<close>, holding \<^verbatim>\<open>x\<close> to
  \<^verbatim>\<open>./sub/x.js\<close>. The first \<^verbatim>\<open>flatten\<close> moves the entry to the origin-root scope \<^verbatim>\<open>/\<close>.
  The second \<^verbatim>\<open>flatten\<close> visits the scope \<^verbatim>\<open>/\<close>, whose origin-root scope is itself:
  \<^verbatim>\<open>scopeBase\<close> and \<^verbatim>\<open>scopeImports\<close> are one object, the entry is written and then deleted
  from it, and the scope, having "flattened" everything, is deleted. The map after two
  calls has no scope; the map after one call has one.
\<close>

theorem flatten_twice_differs:
  "map_sum id (\<lambda>t. m_scopes (tm_map t))
     (flatten (handle_at ''/a/''
        \<lparr>m_imports = [], m_scopes = [(''./sub/'', [(''x'', Some ''./sub/x.js'')])],
         m_depcache = []\<rparr>))
   = Inr [(''/'', [(''x'', Some ''sub/x.js'')])]
   \<and> (case flatten (handle_at ''/a/''
               \<lparr>m_imports = [], m_scopes = [(''./sub/'', [(''x'', Some ''./sub/x.js'')])],
                m_depcache = []\<rparr>) of
         Inl e \<Rightarrow> Inl e
       | Inr t1 \<Rightarrow> map_sum id (\<lambda>t. m_scopes (tm_map t)) (flatten t1))
   = Inr []"
  by code_simp

section \<open>\<^verbatim>\<open>trace\<close> with two entry specifiers\<close>

text \<open>The scenario of section 8: one entry, no dependencies, size 1000.\<close>

lemma trace_single_module:
  "trace (\<lambda>h parentUrl system. Inr ([], 1000)) [0] [''lodash''] False
     (handle_at ''/''
        \<lparr>m_imports = [(''lodash'', Some ''https://cdn.example/lodash.js'')],
         m_scopes = [], m_depcache = []\<rparr>)
   = Some (Inr ([(''lodash'',
                  Some \<lparr>protocol = ''https:'', host = Some ''cdn.example'',
                         pathname = ''/lodash.js'', search = [], hash = []\<rparr>)],
                [(''https://cdn.example/lodash.js'',
                  \<lparr>te_deps = [], te_size = Some 1000, te_order = Some 0\<rparr>)]))"
  by code_simp

text \<open>The two entries of the next theorem, with the analysis of \<^verbatim>\<open>B\<close> arriving first:
  then the dependency has the lower order. The orders depend on the arrival of the
  analyses.\<close>

lemma dependency_first_when_it_arrives_first:
  "trace two_modules [1, 0] [''A'', ''B''] False
     (handle_at ''/''
        \<lparr>m_imports = [(''A'', Some ''./a.js''), (''B'', Some ''./b.js'')],
         m_scopes = [], m_depcache = []\<rparr>)
   = Some (Inr ([(''A'', Some (https_h ''/a.js'')), (''B'', Some (https_h ''/b.js''))],
                [(''https://h/a.js'',
                  \<lparr>te_deps = [(''B'', Some (https_h ''/b.js''))], te_size = Some 10,
                   te_order = Some 1\<rparr>),
                 (''https://h/b.js'',
                  \<lparr>te_deps = [], te_size = Some 20, te_order = Some 0\<rparr>)]))"
  by code_simp

text \<open>
  Claim C3. The entries \<^verbatim>\<open>A\<close> and \<^verbatim>\<open>B\<close> are traced together; the module of \<^verbatim>\<open>A\<close> imports
  \<^verbatim>\<open>B\<close>, the module of \<^verbatim>\<open>B\<close> imports nothing. Both calls of \<^verbatim>\<open>doTrace\<close> create their
  entry and await their analysis. The analysis of \<^verbatim>\<open>A\<close> arrives first: its dependency
  \<^verbatim>\<open>B\<close> is recorded, \<^verbatim>\<open>B\<close> is found in the trace (still waiting), and \<^verbatim>\<open>A\<close> takes order
  0. Then the analysis of \<^verbatim>\<open>B\<close> arrives and \<^verbatim>\<open>B\<close> takes order 1. The edge from \<^verbatim>\<open>A\<close> to
  \<^verbatim>\<open>B\<close> is on no cycle, and the dependency's order is the greater one.
\<close>

theorem dependency_ordered_after_dependent:
  "trace two_modules [0, 1] [''A'', ''B''] False
     (handle_at ''/''
        \<lparr>m_imports = [(''A'', Some ''./a.js''), (''B'', Some ''./b.js'')],
         m_scopes = [], m_depcache = []\<rparr>)
   = Some (Inr ([(''A'', Some (https_h ''/a.js'')), (''B'', Some (https_h ''/b.js''))],
                [(''https://h/a.js'',
                  \<lparr>te_deps = [(''B'', Some (https_h ''/b.js''))], te_size = Some 10,
                   te_order = Some 0\<rparr>),
                 (''https://h/b.js'',
                  \<lparr>te_deps = [], te_size = Some 20, te_order = Some 1\<rparr>)]))"
  by code_simp

section \<open>\<^verbatim>\<open>upgrade\<close> and \<^verbatim>\<open>uninstall\<close>\<close>

lemma obj_get_delete: "obj_get (obj_delete k ob) p = (if p = k then None else obj_get ob p)"
  by (induction ob) (auto simp: obj_get_def obj_delete_def)

lemma imports_truthy_delete:
  "imports_truthy plain (obj_delete k im) p
     = (if p = k then inherited plain p else imports_truthy plain im p)"
  by (simp add: imports_truthy_def obj_get_delete)




lemma gate_enter_effect:
  "gate_enter r t
     = (if c (tm_p t) < 1
        then (Running, t\<lparr>tm_p := (tm_p t)\<lparr>c := c (tm_p t) + 1\<rparr>\<rparr>)
        else (Queued r, t\<lparr>tm_p := (tm_p t)\<lparr>c := c (tm_p t) + 1, q := q (tm_p t) @ [r]\<rparr>\<rparr>))"
  by (simp add: gate_enter_def pool_job_def Let_def)









section \<open>The install-family operations and the gate\<close>

text \<open>
  What \<^verbatim>\<open>traceInstall\<close>, \<^verbatim>\<open>lockInstall\<close>, \<^verbatim>\<open>install\<close> and \<^verbatim>\<open>installEnv\<close> do to the handle
  when they are called is to enter the gate, which leaves the tables as they are; the
  tables change in the gated block only.
\<close>

lemma gated_operations_enter_first:
  "snd (traceInstall modules opts r t) = gate_enter r t
   \<and> snd (lockInstall opts r t) = gate_enter r t
   \<and> snd (install packages opts r t) = gate_enter r t
   \<and> installEnv env r t = gate_enter r (t\<lparr>tm_env := env\<rparr>)
   \<and> tm_map (snd (gate_enter r t)) = tm_map t
   \<and> gated_finish e m' t
       = (e, [], t\<lparr>tm_map := m',
                    tm_p := (tm_p t)\<lparr>c := c (tm_p t) - 1, q := butlast (q (tm_p t))\<rparr>\<rparr>)"
  by (simp add: traceInstall_def lockInstall_def install_def installEnv_def gate_enter_effect
        gated_finish_def pool_next_def Let_def)

text \<open>
  Claim C8. Another operation holds the gate (the counter is 1) when \<^verbatim>\<open>upgrade\<close>, or
  \<^verbatim>\<open>uninstall\<close>, is called for the installed package \<^verbatim>\<open>a\<close>. The call is queued on its
  resolve function 2, it does not hold the gate, and the entry \<^verbatim>\<open>a\<close> has already been
  deleted from the top-level table (whether the table has a prototype or not). \<^verbatim>\<open>install\<close>, called in the same state, is queued
  and has left the table as it was.
\<close>

theorem upgrade_deletes_while_queued:
  "(\<forall>plain. upgrade plain (MArray [''a'']) no_options 2
     ((handle_at ''/'' \<lparr>m_imports = [(''a'', Some ''./a.js'')], m_scopes = [],
                       m_depcache = []\<rparr>) \<lparr>tm_p := \<lparr>c = 1, q = []\<rparr>\<rparr>)
   = (Queued 2,
      (handle_at ''/'' \<lparr>m_imports = [], m_scopes = [], m_depcache = []\<rparr>)
        \<lparr>tm_p := \<lparr>c = 2, q = [2]\<rparr>\<rparr>))
   \<and> (\<forall>plain. uninstall plain (Name ''a'') False 2
     ((handle_at ''/'' \<lparr>m_imports = [(''a'', Some ''./a.js'')], m_scopes = [],
                       m_depcache = []\<rparr>) \<lparr>tm_p := \<lparr>c = 1, q = []\<rparr>\<rparr>)
   = (Queued 2,
      (handle_at ''/'' \<lparr>m_imports = [], m_scopes = [], m_depcache = []\<rparr>)
        \<lparr>tm_p := \<lparr>c = 2, q = [2]\<rparr>\<rparr>))
   \<and> snd (install (PString ''a'') no_options 2
     ((handle_at ''/'' \<lparr>m_imports = [(''a'', Some ''./a.js'')], m_scopes = [],
                       m_depcache = []\<rparr>) \<lparr>tm_p := \<lparr>c = 1, q = []\<rparr>\<rparr>))
   = (Queued 2,
      (handle_at ''/'' \<lparr>m_imports = [(''a'', Some ''./a.js'')], m_scopes = [],
                       m_depcache = []\<rparr>) \<lparr>tm_p := \<lparr>c = 2, q = [2]\<rparr>\<rparr>)"
  by (simp add: upgrade_def uninstall_def traceInstall_def install_def gate_enter_def pool_job_def
        handle_at_def imports_truthy_def set_imports_def truthy_def obj_get_def obj_delete_def
        Let_def)

section \<open>\<^verbatim>\<open>resolve\<close>\<close>

lemma longest_in: "longest ks = Some k \<Longrightarrow> k \<in> set ks"
  by (induction ks arbitrary: k) (auto split: option.splits if_splits)

lemma getMapMatch_key: "getMapMatch specifier tbl = Some k \<Longrightarrow> k \<in> set (obj_keys tbl)"
  by (auto simp: getMapMatch_def split: if_splits dest: longest_in)

lemma obj_get_key: "k \<in> set (obj_keys tbl) \<Longrightarrow> \<exists>v. obj_get tbl k = Some v"
  by (induction tbl) (auto simp: obj_keys_def obj_get_def)

lemma table_entry_matched:
  "matched (getMapMatch specifier tbl)
     \<Longrightarrow> \<exists>k tg. getMapMatch specifier tbl = Some k \<and> k \<noteq> [] \<and> obj_get tbl k = Some tg
                \<and> table_entry specifier tbl = Some (k, tg)"
proof -
  assume "matched (getMapMatch specifier tbl)"
  then obtain k where k: "getMapMatch specifier tbl = Some k" "k \<noteq> []"
    by (auto simp: matched_def split: option.splits)
  then obtain tg where "obj_get tbl k = Some tg"
    using getMapMatch_key obj_get_key by blast
  with k show ?thesis by (simp add: table_entry_def)
qed

lemma scope_candidate_fst: "scope_candidate baseUrl scope = Some sh \<Longrightarrow> fst sh = scope"
  by (auto simp: scope_candidate_def split: option.splits)

lemma set_getScopeMatches:
  "set (getScopeMatches parentUrl scopes baseUrl)
     = {sh. \<exists>scope \<in> set (obj_keys scopes). scope_candidate baseUrl scope = Some sh
              \<and> startsWith (href parentUrl) (snd sh)}"
  by (force simp: getScopeMatches_def List.map_filter_def)

lemma getScopeMatches_keys:
  "sh \<in> set (getScopeMatches parentUrl scopes baseUrl) \<Longrightarrow> fst sh \<in> set (obj_keys scopes)"
  by (auto simp: set_getScopeMatches dest: scope_candidate_fst)

lemma resolve_target_entry:
  "matched (getMapMatch specifier tbl)
     \<Longrightarrow> resolve_target specifier (the (getMapMatch specifier tbl))
           (obj_get tbl (the (getMapMatch specifier tbl))) baseUrl
         = entry_result specifier parentUrl (table_entry specifier tbl) baseUrl"
  by (drule table_entry_matched)
     (auto simp: resolve_target_def entry_result_def target_url_def split: option.splits)

lemma resolve_imports_entry:
  "resolve_imports specifier parentUrl mp baseUrl
     = (if matched (getMapMatch specifier (m_imports mp))
        then entry_result specifier parentUrl (table_entry specifier (m_imports mp)) baseUrl
        else Inl (MODULE_NOT_FOUND specifier (href parentUrl)))"
  by (simp add: resolve_imports_def Let_def resolve_target_entry)

lemma resolve_scopes_find:
  assumes "\<forall>sh \<in> set cands. fst sh \<in> set (obj_keys (m_scopes mp))"
  shows "resolve_scopes specifier parentUrl cands mp baseUrl
           = (case find (scope_matches specifier mp) cands of
                Some sh \<Rightarrow> entry_result specifier parentUrl
                             (table_entry specifier (scope_table mp (fst sh))) baseUrl
              | None \<Rightarrow> resolve_imports specifier parentUrl mp baseUrl)"
  using assms
proof (induction cands)
  case Nil
  then show ?case by simp
next
  case (Cons sh cands)
  obtain scope h where sh: "sh = (scope, h)" by (cases sh)
  with Cons.prems obtain tbl where tbl: "obj_get (m_scopes mp) scope = Some tbl"
    using obj_get_key by fastforce
  then have st: "scope_table mp scope = tbl" by (simp add: scope_table_def)
  show ?case
  proof (cases "matched (getMapMatch specifier tbl)")
    case True
    then show ?thesis
      using sh tbl st by (simp add: scope_matches_def resolve_target_entry Let_def)
  next
    case False
    then show ?thesis
      using sh tbl st Cons by (simp add: scope_matches_def Let_def)
  qed
qed

lemma resolve_plain:
  assumes "isPlain specifier"
  shows "resolve specifier parentUrl mp baseUrl
           = entry_result specifier parentUrl (winning_entry specifier parentUrl mp baseUrl) baseUrl"
proof -
  let ?cands = "getScopeMatches parentUrl (m_scopes mp) baseUrl"
  have "\<forall>sh \<in> set ?cands. fst sh \<in> set (obj_keys (m_scopes mp))"
    by (simp add: getScopeMatches_keys)
  then have "resolve specifier parentUrl mp baseUrl
      = (case find (scope_matches specifier mp) ?cands of
           Some sh \<Rightarrow> entry_result specifier parentUrl
                        (table_entry specifier (scope_table mp (fst sh))) baseUrl
         | None \<Rightarrow> resolve_imports specifier parentUrl mp baseUrl)"
    using assms by (simp add: resolve_def resolve_scopes_find)
  also have "\<dots> = entry_result specifier parentUrl (winning_entry specifier parentUrl mp baseUrl) baseUrl"
    by (auto simp: winning_entry_def winning_table_def resolve_imports_entry entry_result_def
             split: option.splits)
  finally show ?thesis .
qed


lemma winning_entry_None:
  "winning_entry specifier parentUrl mp baseUrl = None
     \<longleftrightarrow> winning_table specifier parentUrl mp baseUrl = None"
proof (cases "find (scope_matches specifier mp) (getScopeMatches parentUrl (m_scopes mp) baseUrl)")
  case None
  then show ?thesis
    using table_entry_matched [of specifier "m_imports mp"]
    by (auto simp: winning_entry_def winning_table_def)
next
  case (Some sh)
  then have "scope_matches specifier mp sh" by (auto simp: find_Some_iff)
  then have "table_entry specifier (scope_table mp (fst sh)) \<noteq> None"
    using table_entry_matched [of specifier "scope_table mp (fst sh)"]
    by (auto simp: scope_matches_def)
  with Some show ?thesis by (simp add: winning_entry_def winning_table_def)
qed

text \<open>
  Claim C4, as the code has it. For a bare specifier \<^verbatim>\<open>resolve\<close> does what section 4.2
  says of the winning entry, where a table matches when the matched key is not empty.
  It returns \<^verbatim>\<open>null\<close> exactly when the winning entry's target is \<^verbatim>\<open>null\<close>. When the
  winning target is a text, the result is that of the URL constructor for the target
  followed by the rest of the specifier: a URL, or the constructor's \<^verbatim>\<open>TypeError\<close>. It
  throws the \<^verbatim>\<open>MODULE_NOT_FOUND\<close> error, with the specifier and the referrer's URL string,
  exactly when no candidate scope and not the top-level table matches. It throws no
  other error.
\<close>

theorem resolve_outcomes:
  assumes "isPlain specifier"
  shows "resolve specifier parentUrl mp baseUrl
           = entry_result specifier parentUrl (winning_entry specifier parentUrl mp baseUrl) baseUrl
     \<and> (resolve specifier parentUrl mp baseUrl = Inr None
          \<longleftrightarrow> (\<exists>k. winning_entry specifier parentUrl mp baseUrl = Some (k, None)))
     \<and> (\<forall>k tg. winning_entry specifier parentUrl mp baseUrl = Some (k, Some tg)
          \<longrightarrow> resolve specifier parentUrl mp baseUrl = target_url tg k specifier baseUrl
            \<and> (resolve specifier parentUrl mp baseUrl = Inl TypeError
                 \<or> (\<exists>u. resolve specifier parentUrl mp baseUrl = Inr (Some u))))
     \<and> (resolve specifier parentUrl mp baseUrl = Inl (MODULE_NOT_FOUND specifier (href parentUrl))
          \<longleftrightarrow> winning_table specifier parentUrl mp baseUrl = None)
     \<and> (\<forall>e. resolve specifier parentUrl mp baseUrl = Inl e
          \<longrightarrow> e = MODULE_NOT_FOUND specifier (href parentUrl) \<or> e = TypeError)"
proof -
  let ?r = "resolve specifier parentUrl mp baseUrl"
  let ?w = "winning_entry specifier parentUrl mp baseUrl"
  have r: "?r = entry_result specifier parentUrl ?w baseUrl"
    using assms by (rule resolve_plain)
  have tu: "target_url tg k specifier baseUrl = Inl TypeError
              \<or> (\<exists>u. target_url tg k specifier baseUrl = Inr (Some u))" for tg k
    by (simp add: target_url_def split: option.splits)
  show ?thesis
  proof (cases ?w)
    case None
    then show ?thesis
      using r winning_entry_None [of specifier parentUrl mp baseUrl]
      by (simp add: entry_result_def)
  next
    case (Some en)
    obtain k tgo where en: "en = (k, tgo)" by (cases en)
    have nn: "winning_table specifier parentUrl mp baseUrl \<noteq> None"
      using Some winning_entry_None [of specifier parentUrl mp baseUrl] by simp
    show ?thesis
    proof (cases tgo)
      case None
      then show ?thesis using r Some en nn by (simp add: entry_result_def)
    next
      case (Some tg)
      then show ?thesis
        using r \<open>?w = Some en\<close> en nn tu [of tg k] by (auto simp: entry_result_def)
    qed
  qed
qed

text \<open>The theorem at work on the examples of section 8: a blocked entry resolves to
  \<^verbatim>\<open>null\<close>, an entry with a target to its URL under the base.\<close>

theorem resolve_outcomes_witness:
  "isPlain ''blocked''
   \<and> resolve ''blocked'' (https_h ''/m.js'')
         \<lparr>m_imports = [(''blocked'', None)], m_scopes = [], m_depcache = []\<rparr> (https_h ''/'')
       = Inr None
   \<and> isPlain ''a''
   \<and> resolve ''a'' (https_h ''/m.js'')
         \<lparr>m_imports = [(''a'', Some ''./a.js'')], m_scopes = [], m_depcache = []\<rparr> (https_h ''/'')
       = Inr (Some (https_h ''/a.js''))"
proof -
  have p1: "isPlain ''blocked''" and p2: "isPlain ''a''"
    by code_simp+
  have w1: "winning_entry ''blocked'' (https_h ''/m.js'')
              \<lparr>m_imports = [(''blocked'', None)], m_scopes = [], m_depcache = []\<rparr> (https_h ''/'')
            = Some (''blocked'', None)"
    by code_simp
  have w2: "winning_entry ''a'' (https_h ''/m.js'')
              \<lparr>m_imports = [(''a'', Some ''./a.js'')], m_scopes = [], m_depcache = []\<rparr> (https_h ''/'')
            = Some (''a'', Some ''./a.js'')"
    by code_simp
  have t2: "target_url ''./a.js'' ''a'' ''a'' (https_h ''/'') = Inr (Some (https_h ''/a.js''))"
    by code_simp
  show ?thesis
    using resolve_outcomes [OF p1, of "https_h ''/m.js''"
            "\<lparr>m_imports = [(''blocked'', None)], m_scopes = [], m_depcache = []\<rparr>" "https_h ''/''"]
          resolve_outcomes [OF p2, of "https_h ''/m.js''"
            "\<lparr>m_imports = [(''a'', Some ''./a.js'')], m_scopes = [], m_depcache = []\<rparr>" "https_h ''/''"]
          p1 p2 w1 w2 t2
    by (simp add: entry_result_def)
qed

text \<open>
  Claim C4 as stated fails. The entry \<^verbatim>\<open>x\<close> has the target \<^verbatim>\<open>https://\<close>, which is no URL:
  \<^verbatim>\<open>resolve\<close> throws a \<^verbatim>\<open>TypeError\<close>, a fourth outcome. The empty specifier is bare and
  the table has an entry for it, which the best-prefix rule finds: \<^verbatim>\<open>if (mapMatch)\<close>
  takes the empty key for no match, and \<^verbatim>\<open>resolve\<close> throws \<^verbatim>\<open>MODULE_NOT_FOUND\<close>.
\<close>

theorem resolve_other_outcomes:
  "isPlain ''x''
   \<and> resolve ''x'' (https_h ''/m.js'')
         \<lparr>m_imports = [(''x'', Some ''https://'')], m_scopes = [], m_depcache = []\<rparr> (https_h ''/'')
       = Inl TypeError
   \<and> isPlain []
   \<and> getMapMatch [] [([], Some ''./e.js'')] = Some []
   \<and> resolve [] (https_h ''/m.js'')
         \<lparr>m_imports = [([], Some ''./e.js'')], m_scopes = [], m_depcache = []\<rparr> (https_h ''/'')
       = Inl (MODULE_NOT_FOUND [] ''https://h/m.js'')"
  by code_simp

section \<open>Scope precedence\<close>

lemma find_first:
  "\<forall>x \<in> set pre. \<not> P x \<Longrightarrow> P y \<Longrightarrow> find P (pre @ y # post) = Some y"
  by (induction pre) auto

lemma find_none: "\<forall>x \<in> set xs. \<not> P x \<Longrightarrow> find P xs = None"
  by (induction xs) auto

lemma sorted_getScopeMatches:
  "sorted_wrt (\<lambda>a b. length (snd b) \<le> length (snd a)) (getScopeMatches parentUrl scopes baseUrl)"
proof -
  have "sorted (map (\<lambda>sh. - int (length (snd sh))) (getScopeMatches parentUrl scopes baseUrl))"
    unfolding getScopeMatches_def by (rule sorted_sort_key)
  then show ?thesis
    by (simp add: sorted_map)
qed

lemma scope_candidate_target:
  "scope_candidate baseUrl scope = Some sh \<longleftrightarrow> fst sh = scope \<and> entry_target baseUrl scope = Some (snd sh)"
  by (cases sh) (auto simp: scope_candidate_def entry_target_def split: option.splits)

text \<open>
  Claim C5, as the code has it. The candidate scopes are the scope keys whose URL is a
  prefix of the referrer's, longest URL first. For a bare specifier, the first
  candidate scope whose table matches with a non-empty key gives the result, from its
  own entry alone, a \<^verbatim>\<open>null\<close> target included; when no candidate scope matches so, the
  result is that of the top-level table.
\<close>

theorem scope_precedence:
  "sorted_wrt (\<lambda>a b. length (snd b) \<le> length (snd a))
     (getScopeMatches parentUrl (m_scopes mp) baseUrl)
   \<and> (\<forall>sh \<in> set (getScopeMatches parentUrl (m_scopes mp) baseUrl).
        fst sh \<in> set (obj_keys (m_scopes mp))
        \<and> entry_target baseUrl (fst sh) = Some (snd sh)
        \<and> startsWith (href parentUrl) (snd sh))
   \<and> (\<forall>scope \<in> set (obj_keys (m_scopes mp)). \<forall>h.
        entry_target baseUrl scope = Some h \<and> startsWith (href parentUrl) h
        \<longrightarrow> (scope, h) \<in> set (getScopeMatches parentUrl (m_scopes mp) baseUrl))
   \<and> (isPlain specifier
        \<and> getScopeMatches parentUrl (m_scopes mp) baseUrl = pre @ sh # post
        \<and> (\<forall>x \<in> set pre. \<not> scope_matches specifier mp x)
        \<and> scope_matches specifier mp sh
        \<longrightarrow> resolve specifier parentUrl mp baseUrl
              = entry_result specifier parentUrl
                  (table_entry specifier (scope_table mp (fst sh))) baseUrl)
   \<and> (isPlain specifier
        \<and> (\<forall>x \<in> set (getScopeMatches parentUrl (m_scopes mp) baseUrl).
              \<not> scope_matches specifier mp x)
        \<longrightarrow> resolve specifier parentUrl mp baseUrl
              = entry_result specifier parentUrl
                  (if matched (getMapMatch specifier (m_imports mp))
                   then table_entry specifier (m_imports mp) else None) baseUrl)"
proof (intro conjI)
  let ?cands = "getScopeMatches parentUrl (m_scopes mp) baseUrl"
  show "sorted_wrt (\<lambda>a b. length (snd b) \<le> length (snd a)) ?cands"
    by (rule sorted_getScopeMatches)
  show "\<forall>sh \<in> set ?cands. fst sh \<in> set (obj_keys (m_scopes mp))
          \<and> entry_target baseUrl (fst sh) = Some (snd sh)
          \<and> startsWith (href parentUrl) (snd sh)"
    by (auto simp: set_getScopeMatches scope_candidate_target)
  show "\<forall>scope \<in> set (obj_keys (m_scopes mp)). \<forall>h.
          entry_target baseUrl scope = Some h \<and> startsWith (href parentUrl) h
          \<longrightarrow> (scope, h) \<in> set ?cands"
    by (auto simp: set_getScopeMatches scope_candidate_target)
  show "isPlain specifier \<and> ?cands = pre @ sh # post
          \<and> (\<forall>x \<in> set pre. \<not> scope_matches specifier mp x)
          \<and> scope_matches specifier mp sh
        \<longrightarrow> resolve specifier parentUrl mp baseUrl
              = entry_result specifier parentUrl
                  (table_entry specifier (scope_table mp (fst sh))) baseUrl"
  proof
    assume a: "isPlain specifier \<and> ?cands = pre @ sh # post
          \<and> (\<forall>x \<in> set pre. \<not> scope_matches specifier mp x)
          \<and> scope_matches specifier mp sh"
    then have "find (scope_matches specifier mp) ?cands = Some sh"
      by (simp add: find_first)
    then have "winning_entry specifier parentUrl mp baseUrl
                 = table_entry specifier (scope_table mp (fst sh))"
      by (simp add: winning_entry_def winning_table_def)
    with a show "resolve specifier parentUrl mp baseUrl
              = entry_result specifier parentUrl
                  (table_entry specifier (scope_table mp (fst sh))) baseUrl"
      by (simp add: resolve_plain)
  qed
  show "isPlain specifier \<and> (\<forall>x \<in> set ?cands. \<not> scope_matches specifier mp x)
        \<longrightarrow> resolve specifier parentUrl mp baseUrl
              = entry_result specifier parentUrl
                  (if matched (getMapMatch specifier (m_imports mp))
                   then table_entry specifier (m_imports mp) else None) baseUrl"
  proof
    assume a: "isPlain specifier \<and> (\<forall>x \<in> set ?cands. \<not> scope_matches specifier mp x)"
    then have "find (scope_matches specifier mp) ?cands = None"
      by (simp add: find_none)
    then have "winning_entry specifier parentUrl mp baseUrl
                 = (if matched (getMapMatch specifier (m_imports mp))
                    then table_entry specifier (m_imports mp) else None)"
      by (simp add: winning_entry_def winning_table_def)
    with a show "resolve specifier parentUrl mp baseUrl
              = entry_result specifier parentUrl
                  (if matched (getMapMatch specifier (m_imports mp))
                   then table_entry specifier (m_imports mp) else None) baseUrl"
      by (simp add: resolve_plain)
  qed
qed

text \<open>The theorem at work on the example of section 8: from a referrer under
  \<^verbatim>\<open>./sub/\<close> the scope's entry wins, from a referrer outside every scope the top-level
  entry does.\<close>

theorem scope_precedence_witness:
  "isPlain ''x''
   \<and> getScopeMatches (https_h ''/a/sub/m.js'')
         [(''./'', [(''y'', Some ''./y.js'')]), (''./sub/'', [(''x'', Some ''./sub/x.js'')])]
         (https_h ''/a/'')
       = [(''./sub/'', ''https://h/a/sub/''), (''./'', ''https://h/a/'')]
   \<and> scope_matches ''x''
         \<lparr>m_imports = [(''x'', Some ''./x.js'')],
          m_scopes = [(''./'', [(''y'', Some ''./y.js'')]), (''./sub/'', [(''x'', Some ''./sub/x.js'')])],
          m_depcache = []\<rparr> (''./sub/'', ''https://h/a/sub/'')
   \<and> resolve ''x'' (https_h ''/a/sub/m.js'')
         \<lparr>m_imports = [(''x'', Some ''./x.js'')],
          m_scopes = [(''./'', [(''y'', Some ''./y.js'')]), (''./sub/'', [(''x'', Some ''./sub/x.js'')])],
          m_depcache = []\<rparr> (https_h ''/a/'')
       = Inr (Some (https_h ''/a/sub/x.js''))
   \<and> resolve ''x'' (https_h ''/b/m.js'')
         \<lparr>m_imports = [(''x'', Some ''./x.js'')],
          m_scopes = [(''./'', [(''y'', Some ''./y.js'')]), (''./sub/'', [(''x'', Some ''./sub/x.js'')])],
          m_depcache = []\<rparr> (https_h ''/a/'')
       = Inr (Some (https_h ''/a/x.js''))"
proof -
  let ?mp = "\<lparr>m_imports = [(''x'', Some ''./x.js'')],
          m_scopes = [(''./'', [(''y'', Some ''./y.js'')]), (''./sub/'', [(''x'', Some ''./sub/x.js'')])],
          m_depcache = []\<rparr>"
  have p: "isPlain ''x''" by code_simp
  have c1: "getScopeMatches (https_h ''/a/sub/m.js'') (m_scopes ?mp) (https_h ''/a/'')
              = [] @ (''./sub/'', ''https://h/a/sub/'') # [(''./'', ''https://h/a/'')]"
    by code_simp
  have m1: "scope_matches ''x'' ?mp (''./sub/'', ''https://h/a/sub/'')" by code_simp
  have e1: "entry_result ''x'' (https_h ''/a/sub/m.js'')
              (table_entry ''x'' (scope_table ?mp (fst (''./sub/'', ''https://h/a/sub/'')))) (https_h ''/a/'')
            = Inr (Some (https_h ''/a/sub/x.js''))"
    by code_simp
  have c2: "getScopeMatches (https_h ''/b/m.js'') (m_scopes ?mp) (https_h ''/a/'') = []"
    by code_simp
  have e2: "entry_result ''x'' (https_h ''/b/m.js'')
              (if matched (getMapMatch ''x'' (m_imports ?mp))
               then table_entry ''x'' (m_imports ?mp) else None) (https_h ''/a/'')
            = Inr (Some (https_h ''/a/x.js''))"
    by code_simp
  have r1: "resolve ''x'' (https_h ''/a/sub/m.js'') ?mp (https_h ''/a/'')
              = Inr (Some (https_h ''/a/sub/x.js''))"
    using scope_precedence [of "https_h ''/a/sub/m.js''" ?mp "https_h ''/a/''" "''x''" "[]"
            "(''./sub/'', ''https://h/a/sub/'')" "[(''./'', ''https://h/a/'')]"]
          p c1 m1 e1
    by simp
  have r2: "resolve ''x'' (https_h ''/b/m.js'') ?mp (https_h ''/a/'')
              = Inr (Some (https_h ''/a/x.js''))"
    using scope_precedence [of "https_h ''/b/m.js''" ?mp "https_h ''/a/''" "''x''"]
          p c2 e2
    by simp
  show ?thesis using p c1 m1 r1 r2 by simp
qed

text \<open>
  Claim C5 as stated fails: the scope \<^verbatim>\<open>./sub/\<close> is a candidate and the best-prefix
  rule finds its entry for the empty specifier, yet the scope does not determine the
  result; \<^verbatim>\<open>resolve\<close> goes on to the top-level table and throws \<^verbatim>\<open>MODULE_NOT_FOUND\<close>.
\<close>

theorem empty_key_match_is_skipped:
  "isPlain []
   \<and> getScopeMatches (https_h ''/a/sub/m.js'') [(''./sub/'', [([], Some ''./s.js'')])] (https_h ''/a/'')
       = [(''./sub/'', ''https://h/a/sub/'')]
   \<and> getMapMatch [] [([], Some ''./s.js'')] = Some []
   \<and> resolve [] (https_h ''/a/sub/m.js'')
         \<lparr>m_imports = [], m_scopes = [(''./sub/'', [([], Some ''./s.js'')])], m_depcache = []\<rparr>
         (https_h ''/a/'')
       = Inl (MODULE_NOT_FOUND [] ''https://h/a/sub/m.js'')"
  by code_simp

section \<open>The snapshot of the getter \<^verbatim>\<open>map\<close>\<close>

lemma assign_elsewhere: "a \<notin> set (addrs v) \<Longrightarrow> assign a w v = v"
proof (induction v)
  case (Obj b props)
  have "map (\<lambda>pv. (fst pv, assign a w (snd pv))) props = props"
  proof (rule map_idI)
    fix pv assume pv: "pv \<in> set props"
    then have "a \<notin> set (addrs (snd pv))" using Obj.prems by auto
    moreover have "snd pv \<in> Basic_BNFs.snds pv" by (cases pv) auto
    ultimately have "assign a w (snd pv) = snd pv" using Obj.IH pv by blast
    then show "(fst pv, assign a w (snd pv)) = pv" by simp
  qed
  with Obj.prems show ?case by auto
qed auto

lemma fresh_in_widen: "fresh_in n n' as \<Longrightarrow> m \<le> n \<Longrightarrow> n' \<le> m' \<Longrightarrow> fresh_in m m' as"
  by (auto simp: fresh_in_def list_all_iff)

lemma fresh_in_append: "fresh_in n n' (as @ bs) = (fresh_in n n' as \<and> fresh_in n n' bs)"
  by (auto simp: fresh_in_def)

lemma fresh_in_Cons: "fresh_in n n' (a # bs) = (n \<le> a \<and> a < n' \<and> fresh_in n n' bs)"
  by (auto simp: fresh_in_def)

lemma clone_fresh:
  "fresh_in n (snd (deepClone n props)) (addrs (fst (deepClone n props)))"
  "fresh_in n (snd (deepClone_props n ps)) (concat (map (\<lambda>pv. addrs (snd pv)) (fst (deepClone_props n ps))))"
proof (induction n props and n ps rule: deepClone_deepClone_props.induct)
  case (1 n props)
  then show ?case
    by (auto simp: fresh_in_Cons split: prod.splits intro: fresh_in_widen) (auto simp: fresh_in_def)
next
  case (2 n)
  then show ?case by (simp add: fresh_in_def)
next
  case (3 n p b xs rest)
  then show ?case
    by (auto simp: fresh_in_Cons split: prod.splits intro: fresh_in_widen) (auto simp: fresh_in_def)
next
  case (4 n p b ps rest)
  obtain out n1 where c1: "deepClone n ps = (out, n1)" by (cases "deepClone n ps")
  obtain outRest n2 where c2: "deepClone_props n1 rest = (outRest, n2)"
    by (cases "deepClone_props n1 rest")
  have f1: "fresh_in n n1 (addrs out)" using 4(1) c1 by simp
  have f2: "fresh_in n1 n2 (concat (map (\<lambda>pv. addrs (snd pv)) outRest))"
    using 4(2) c1 c2 by simp
  have le1: "n \<le> n1" and le2: "n1 \<le> n2" using f1 f2 by (simp_all add: fresh_in_def)
  have "fresh_in n n2 (addrs out)" using f1 le2 fresh_in_widen by blast
  moreover have "fresh_in n n2 (concat (map (\<lambda>pv. addrs (snd pv)) outRest))"
    using f2 le1 fresh_in_widen by blast
  ultimately show ?case using c1 c2 by (simp add: fresh_in_append)
next
  case (5 n p x rest)
  then show ?case by (auto split: prod.splits)
qed

lemma clone_erase:
  "erase (fst (deepClone n props)) = erase (Obj a props)"
  "map (\<lambda>pv. (fst pv, erase (snd pv))) (fst (deepClone_props n ps)) = map (\<lambda>pv. (fst pv, erase (snd pv))) ps"
proof (induction n props and n ps arbitrary: a rule: deepClone_deepClone_props.induct)
  case (4 n p b ps rest)
  then show ?case by (auto split: prod.splits)
qed (auto split: prod.splits)


lemma addrs_prim_props: "concat (map (\<lambda>pv. addrs (snd pv)) (prim_props tbl)) = []"
  by (induction tbl) (auto simp: prim_props_def)

lemma addrs_located_scopes:
  "a \<in> set (concat (map (\<lambda>pv. addrs (snd pv)) (located_scopes n scopes)))
     \<Longrightarrow> n \<le> a \<and> a < n + length scopes"
proof (induction scopes arbitrary: n)
  case Nil
  then show ?case by simp
next
  case (Cons st scopes)
  obtain scope tbl where st: "st = (scope, tbl)" by (cases st)
  from Cons.prems have "a = n \<or> a \<in> set (concat (map (\<lambda>pv. addrs (snd pv)) (located_scopes (Suc n) scopes)))"
    by (simp add: st addrs_prim_props del: set_concat)
  then show ?case
  proof
    assume "a = n"
    then show ?thesis by simp
  next
    assume "a \<in> set (concat (map (\<lambda>pv. addrs (snd pv)) (located_scopes (Suc n) scopes)))"
    then have "Suc n \<le> a \<and> a < Suc n + length scopes" by (rule Cons.IH)
    then show ?thesis by simp
  qed
qed

lemma addrs_located_depcache:
  "a \<in> set (concat (map (\<lambda>pv. addrs (snd pv)) (located_depcache n depcache)))
     \<Longrightarrow> n \<le> a \<and> a < n + length depcache"
proof (induction depcache arbitrary: n)
  case Nil
  then show ?case by simp
next
  case (Cons dx depcache)
  obtain dep xs where dx: "dx = (dep, xs)" by (cases dx)
  from Cons.prems have "a = n \<or> a \<in> set (concat (map (\<lambda>pv. addrs (snd pv)) (located_depcache (Suc n) depcache)))"
    by (simp add: dx del: set_concat)
  then show ?case
  proof
    assume "a = n"
    then show ?thesis by simp
  next
    assume "a \<in> set (concat (map (\<lambda>pv. addrs (snd pv)) (located_depcache (Suc n) depcache)))"
    then have "Suc n \<le> a \<and> a < Suc n + length depcache" by (rule Cons.IH)
    then show ?thesis by simp
  qed
qed

lemma located_below: "\<forall>a \<in> set (addrs (located mp)). a < heap_size mp"
proof
  fix a assume "a \<in> set (addrs (located mp))"
  then have "a = 0 \<or> a = 1 \<or> a = 2 \<or> a = 3
      \<or> a \<in> set (concat (map (\<lambda>pv. addrs (snd pv)) (located_scopes 4 (m_scopes mp))))
      \<or> a \<in> set (concat (map (\<lambda>pv. addrs (snd pv))
                  (located_depcache (4 + length (m_scopes mp)) (m_depcache mp))))"
    by (auto simp: located_def located_props_def addrs_prim_props simp del: set_concat)
  then show "a < heap_size mp"
    using addrs_located_scopes [of a 4 "m_scopes mp"]
          addrs_located_depcache [of a "4 + length (m_scopes mp)" "m_depcache mp"]
    by (auto simp: heap_size_def simp del: set_concat)
qed

text \<open>
  Claim C10. The value that the getter \<^verbatim>\<open>map\<close> returns has the content of the internal
  map, and none of its objects and arrays is an object or array of the internal map:
  whatever is assigned to an object or array of the returned value (the map object, one
  of the three tables, a scope's mapping, a list of \<^verbatim>\<open>depcache\<close>), the internal map is
  what it was. What \<^verbatim>\<open>resolve\<close>, \<^verbatim>\<open>trace\<close> and \<^verbatim>\<open>toString\<close> read is the internal map.
\<close>

theorem map_getter_is_separate:
  "erase (map_getter t) = erase (located (tm_map t))
   \<and> (\<forall>a \<in> set (addrs (map_getter t)). \<forall>w.
         assign a w (located (tm_map t)) = located (tm_map t))"
proof -
  define mp where "mp = tm_map t"
  define cl where "cl = map_getter t"
  have cl: "cl = fst (deepClone (heap_size mp) (located_props mp))"
    by (simp add: cl_def mp_def map_getter_def)
  have "fresh_in (heap_size mp) (snd (deepClone (heap_size mp) (located_props mp))) (addrs cl)"
    unfolding cl by (rule clone_fresh)
  then have above: "\<forall>a \<in> set (addrs cl). heap_size mp \<le> a"
    by (simp add: fresh_in_def list_all_iff)
  have "\<forall>a \<in> set (addrs cl). \<forall>w. assign a w (located mp) = located mp"
  proof (intro ballI allI)
    fix a w assume "a \<in> set (addrs cl)"
    with above have "heap_size mp \<le> a" by blast
    with located_below [of mp] have "a \<notin> set (addrs (located mp))" by auto
    then show "assign a w (located mp) = located mp" by (rule assign_elsewhere)
  qed
  moreover have "erase cl = erase (located mp)"
    unfolding cl located_def by (rule clone_erase(1))
  ultimately show ?thesis
    unfolding cl_def mp_def by blast
qed

text \<open>The theorem at work: the snapshot of a map with two entries, one scope and one
  \<^verbatim>\<open>depcache\<close> list lives at the addresses from 6 on; pushing to the snapshot's list,
  at address 11, leaves the internal map, at the addresses below 6, as it was.\<close>

theorem map_getter_is_separate_witness:
  "map_getter (handle_at ''/''
      \<lparr>m_imports = [(''a'', Some ''./a.js''), (''b'', None)],
       m_scopes = [(''./s/'', [(''x'', Some ''./s/x.js'')])],
       m_depcache = [(''./a.js'', [''./d.js''])]\<rparr>)
   = Obj 6 [(''imports'', Obj 7 [(''a'', Prim (Some ''./a.js'')), (''b'', Prim None)]),
            (''scopes'', Obj 8 [(''./s/'', Obj 9 [(''x'', Prim (Some ''./s/x.js''))])]),
            (''depcache'', Obj 10 [(''./a.js'', Arr 11 [''./d.js''])])]
   \<and> assign 11 (Arr 11 [''./d.js'', ''./e.js''])
       (located \<lparr>m_imports = [(''a'', Some ''./a.js''), (''b'', None)],
                 m_scopes = [(''./s/'', [(''x'', Some ''./s/x.js'')])],
                 m_depcache = [(''./a.js'', [''./d.js''])]\<rparr>)
     = Obj 0 [(''imports'', Obj 1 [(''a'', Prim (Some ''./a.js'')), (''b'', Prim None)]),
              (''scopes'', Obj 2 [(''./s/'', Obj 4 [(''x'', Prim (Some ''./s/x.js''))])]),
              (''depcache'', Obj 3 [(''./a.js'', Arr 5 [''./d.js''])])]"
proof -
  let ?t = "handle_at ''/''
      \<lparr>m_imports = [(''a'', Some ''./a.js''), (''b'', None)],
       m_scopes = [(''./s/'', [(''x'', Some ''./s/x.js'')])],
       m_depcache = [(''./a.js'', [''./d.js''])]\<rparr>"
  have g: "map_getter ?t
   = Obj 6 [(''imports'', Obj 7 [(''a'', Prim (Some ''./a.js'')), (''b'', Prim None)]),
            (''scopes'', Obj 8 [(''./s/'', Obj 9 [(''x'', Prim (Some ''./s/x.js''))])]),
            (''depcache'', Obj 10 [(''./a.js'', Arr 11 [''./d.js''])])]"
    by code_simp
  have l: "located (tm_map ?t)
     = Obj 0 [(''imports'', Obj 1 [(''a'', Prim (Some ''./a.js'')), (''b'', Prim None)]),
              (''scopes'', Obj 2 [(''./s/'', Obj 4 [(''x'', Prim (Some ''./s/x.js''))])]),
              (''depcache'', Obj 3 [(''./a.js'', Arr 5 [''./d.js''])])]"
    by code_simp
  have tm: "tm_map ?t = \<lparr>m_imports = [(''a'', Some ''./a.js''), (''b'', None)],
       m_scopes = [(''./s/'', [(''x'', Some ''./s/x.js'')])],
       m_depcache = [(''./a.js'', [''./d.js''])]\<rparr>"
    by (simp add: handle_at_def)
  have "11 \<in> set (addrs (map_getter ?t))"
    unfolding g by simp
  with map_getter_is_separate [of ?t]
  have "assign 11 (Arr 11 [''./d.js'', ''./e.js'']) (located (tm_map ?t)) = located (tm_map ?t)"
    by blast
  with g l tm show ?thesis by simp
qed

end
